theory Spec2Isabelle
  imports Main
begin

section \<open>Path construction: \<open>strings.Join\<close>, \<open>filepath.Clean\<close>, \<open>filepath.Join\<close>\<close>

text \<open>
  The handlers of \<open>main.go\<close> build every storage path and the download redirect with
  \<open>filepath.Join\<close> of the Go standard library (Unix flavour: the separator is the slash,
  there are no volume names; \<open>path.Clean\<close>, which the file server uses, is the same
  algorithm).  Strings are byte strings.
\<close>

fun strings_Join :: "string list \<Rightarrow> string \<Rightarrow> string" where
  "strings_Join [] sep = []"
| "strings_Join [e] sep = e"
| "strings_Join (e # es) sep = e @ sep @ strings_Join es sep"

definition IsPathSeparator :: "char \<Rightarrow> bool" where
  "IsPathSeparator c = (c = CHR ''/'')"

text \<open>
  The backtracking of a \<open>..\<close> element in \<open>Clean\<close>: \<open>out.w--\<close> has been done by the
  caller, the loop \<open>for out.w > dotdot && !IsPathSeparator(out.index(out.w)) { out.w-- }\<close>
  is the recursion on \<open>w\<close>.
\<close>

fun backtrack :: "nat \<Rightarrow> string \<Rightarrow> nat \<Rightarrow> nat" where
  "backtrack dotdot out 0 = 0"
| "backtrack dotdot out (Suc w) =
     (if Suc w > dotdot \<and> \<not> IsPathSeparator (out ! Suc w) then backtrack dotdot out w else Suc w)"

text \<open>
  The main loop of \<open>Clean\<close>.  The first argument is \<open>rooted\<close>, the second the unread
  part of the path (\<open>path[r:]\<close>), the third the bytes written so far (\<open>out\<close>, so
  \<open>out.w\<close> is its length), the fourth \<open>dotdot\<close>.
\<close>

function clean_loop :: "bool \<Rightarrow> string \<Rightarrow> string \<Rightarrow> nat \<Rightarrow> string" where
  "clean_loop rooted [] out dotdot = out"
| "clean_loop rooted (c # cs) out dotdot =
     (if IsPathSeparator c then clean_loop rooted cs out dotdot
      else if c = CHR ''.'' \<and> (cs = [] \<or> IsPathSeparator (hd cs)) then
        clean_loop rooted cs out dotdot
      else if c = CHR ''.'' \<and> hd cs = CHR ''.'' \<and> (tl cs = [] \<or> IsPathSeparator (hd (tl cs))) then
        (if length out > dotdot then
           clean_loop rooted (tl cs) (take (backtrack dotdot out (length out - 1)) out) dotdot
         else if \<not> rooted then
           clean_loop rooted (tl cs)
             ((if length out > 0 then out @ ''/'' else out) @ ''..'')
             (length ((if length out > 0 then out @ ''/'' else out) @ ''..''))
         else clean_loop rooted (tl cs) out dotdot)
      else
        clean_loop rooted (dropWhile (\<lambda>x. \<not> IsPathSeparator x) (c # cs))
          ((if rooted \<and> length out \<noteq> 1 \<or> \<not> rooted \<and> length out \<noteq> 0 then out @ ''/'' else out)
             @ takeWhile (\<lambda>x. \<not> IsPathSeparator x) (c # cs))
          dotdot)"
  by pat_completeness auto
termination
proof (relation "measure (\<lambda>(rooted, path, out, dotdot). length path)", goal_cases)
  case (7 rooted c cs out dotdot)
  then show ?case
    using length_dropWhile_le [of "\<lambda>x. \<not> IsPathSeparator x" cs] by simp
qed simp_all

definition Clean :: "string \<Rightarrow> string" where
  "Clean path =
     (if path = [] then ''.''
      else let rooted = IsPathSeparator (hd path);
               out = (if rooted then clean_loop rooted (tl path) ''/'' 1
                      else clean_loop rooted path [] 0)
           in if out = [] then ''.'' else out)"

text \<open>
  \<open>filepath.Join\<close>: the elements before the first non-empty one are dropped, the rest
  are joined with the separator (empty elements included) and cleaned; with no non-empty
  element the result is the empty string.
\<close>

definition Join :: "string list \<Rightarrow> string" where
  "Join elem =
     (case dropWhile (\<lambda>e. e = []) elem of
        [] \<Rightarrow> []
      | es \<Rightarrow> Clean (strings_Join es ''/''))"

text \<open>
  \<open>path.Base\<close>, used by the file server's redirects: trailing slashes are stripped,
  then everything up to the last slash.
\<close>

definition stripTrailingSlashes :: "string \<Rightarrow> string" where
  "stripTrailingSlashes path = rev (dropWhile IsPathSeparator (rev path))"

definition Base :: "string \<Rightarrow> string" where
  "Base path =
     (if path = [] then ''.''
      else let p = stripTrailingSlashes path;
               e = rev (takeWhile (\<lambda>x. \<not> IsPathSeparator x) (rev p))
           in if e = [] then ''/'' else e)"

text \<open>\<open>strings.HasPrefix\<close>, \<open>strings.HasSuffix\<close>, \<open>strings.TrimPrefix\<close>, \<open>strings.TrimSuffix\<close>.\<close>

definition HasPrefix :: "string \<Rightarrow> string \<Rightarrow> bool" where
  "HasPrefix s pre = (take (length pre) s = pre)"

definition HasSuffix :: "string \<Rightarrow> string \<Rightarrow> bool" where
  "HasSuffix s suf = (length suf \<le> length s \<and> drop (length s - length suf) s = suf)"

definition TrimPrefix :: "string \<Rightarrow> string \<Rightarrow> string" where
  "TrimPrefix s pre = (if HasPrefix s pre then drop (length pre) s else s)"

definition TrimSuffix :: "string \<Rightarrow> string \<Rightarrow> string" where
  "TrimSuffix s suf = (if HasSuffix s suf then take (length s - length suf) s else s)"

text \<open>\<open>strings.Split(s, "/")\<close>: the fields between the separators, empty fields kept.\<close>

fun Split :: "string \<Rightarrow> char \<Rightarrow> string list" where
  "Split [] sep = [[]]"
| "Split (c # cs) sep =
     (if c = sep then [] # Split cs sep
      else case Split cs sep of
             [] \<Rightarrow> [[c]]
           | e # es \<Rightarrow> (c # e) # es)"

section \<open>Data model of \<open>main.go\<close>\<close>

definition ModuleBasePath :: string where
  "ModuleBasePath = ''/terraform/modules/v1''"

text \<open>
  A Go slice is \<open>nil\<close> or holds elements; \<open>append\<close> to \<open>nil\<close> allocates.  The
  difference is visible in the JSON encoding (\<open>null\<close> against an array).
\<close>

type_synonym 'a slice = "'a list option"

definition elems :: "'a slice \<Rightarrow> 'a list" where
  "elems s = (case s of None \<Rightarrow> [] | Some xs \<Rightarrow> xs)"

definition append_slice :: "'a slice \<Rightarrow> 'a \<Rightarrow> 'a slice" where
  "append_slice s x = Some (elems s @ [x])"

record ServiceDiscoveryResp =
  ModulesV1 :: string

text \<open>A \<open>map[string]string\<close> literal is an association list; each one here has one key.\<close>

record ModuleVersions =
  Versions :: "(string \<times> string) list slice"

record ModuleVersionsResp =
  Modules :: "ModuleVersions slice"

record Module =
  Namespace :: string
  Name :: string
  Provider :: string
  Version :: string

subsection \<open>JSON documents written by \<open>encoding/json\<close>\<close>

text \<open>
  The encoder's output is kept as a document tree; the byte-level rendering (escaping,
  the absence of white space, the final newline) is the library's.  Struct fields
  appear under their tags, a \<open>nil\<close> slice is \<open>null\<close>.
\<close>

datatype json = JNull | JString string | JArray "json list" | JObject "(string \<times> json) list"

definition json_slice :: "('a \<Rightarrow> json) \<Rightarrow> 'a slice \<Rightarrow> json" where
  "json_slice f s = (case s of None \<Rightarrow> JNull | Some xs \<Rightarrow> JArray (map f xs))"

definition json_map :: "(string \<times> string) list \<Rightarrow> json" where
  "json_map m = JObject (map (\<lambda>(k, v). (k, JString v)) m)"

definition json_ServiceDiscoveryResp :: "ServiceDiscoveryResp \<Rightarrow> json" where
  "json_ServiceDiscoveryResp s = JObject [(''modules.v1'', JString (ModulesV1 s))]"

definition json_ModuleVersions :: "ModuleVersions \<Rightarrow> json" where
  "json_ModuleVersions m = JObject [(''versions'', json_slice json_map (Versions m))]"

definition json_ModuleVersionsResp :: "ModuleVersionsResp \<Rightarrow> json" where
  "json_ModuleVersionsResp r = JObject [(''modules'', json_slice json_ModuleVersions (Modules r))]"

subsection \<open>The storage handle (\<open>fs.FS\<close>)\<close>

text \<open>
  \<open>s3fsys\<close> is an \<open>fs.FS\<close> built by an external package.  The program uses two of
  its capabilities: listing the entries of a directory (\<open>fs.ReadDir\<close>) and opening a
  name (through \<open>http.FS\<close>).  Both are parameters of the model, and so is the
  modification time that \<open>Stat\<close> reports for an opened name (in seconds since the
  Unix epoch, \<open>None\<close> for Go's zero time).  An error carries what \<open>errors.Is\<close> can
  tell about it and its \<open>Error()\<close> text.
\<close>

datatype err_kind = ErrNotExist | ErrPermission | ErrOther

record error =
  err_is :: err_kind
  Error :: string

record DirEntry =
  EntryName :: string
  EntryIsDir :: bool

datatype node = File string | Dir "DirEntry list"

record FS =
  ReadDir :: "string \<Rightarrow> error + DirEntry list"
  Open :: "string \<Rightarrow> error + node"
  ModTime :: "string \<Rightarrow> int option"

fun IsDir :: "node \<Rightarrow> bool" where
  "IsDir (File b) = False"
| "IsDir (Dir es) = True"

text \<open>\<open>fs.Stat(fsys, name)\<close>, as far as the program looks at it: whether the name is a directory.\<close>

definition Stat :: "FS \<Rightarrow> string \<Rightarrow> error + bool" where
  "Stat fsys name = (case Open fsys name of Inl err \<Rightarrow> Inl err | Inr d \<Rightarrow> Inr (IsDir d))"

definition fs_ErrNotExist :: error where
  "fs_ErrNotExist = \<lparr>err_is = ErrNotExist, Error = ''file does not exist''\<rparr>"

subsection \<open>Globals\<close>

record globals =
  bucket :: string
  profile :: string
  prefix :: string
  port :: string
  s3fsys :: FS

section \<open>Requests and the response writer of \<open>net/http\<close>\<close>

text \<open>
  A request is its method, its path, the route parameters that the router has put into
  its context, and the request headers that the file server of \<open>net/http\<close> reads.
  Those headers are kept as the library's own parsers read them:
  \<^item> \<open>IfMatch\<close> and \<open>IfNoneMatch\<close> are the results of \<open>checkIfMatch\<close> and
    \<open>checkIfNoneMatch\<close>.  No response of this program carries an \<open>Etag\<close>, so the
    request header alone decides them: \<open>condNone\<close> when the header is absent; for
    \<open>If-Match\<close>, \<open>condTrue\<close> when the list holds \<open>*\<close> and \<open>condFalse\<close> otherwise; for
    \<open>If-None-Match\<close>, \<open>condFalse\<close> when the list holds \<open>*\<close> and \<open>condTrue\<close> otherwise.
  \<^item> \<open>IfUnmodifiedSince\<close> and \<open>IfModifiedSince\<close> are the dates that \<open>ParseTime\<close>
    reads, in seconds since the Unix epoch; \<open>None\<close> when the header is absent or is
    not a date, which the library treats alike.
  \<^item> \<open>IfRange\<close> tells whether the header is absent, an entity tag, a date, or neither.
  \<^item> \<open>Range\<close> is \<open>None\<close> when the header is absent or empty; otherwise it gives, for
    each content size, what \<open>parseRange\<close> returns: the error \<open>invalid range\<close>, the
    error of ranges that do not overlap the content, or the list of ranges as pairs of
    start and length.
  Requests have no query.
\<close>

datatype condResult = condNone | condTrue | condFalse

datatype ifRange = IfRangeAbsent | IfRangeETag | IfRangeDate int | IfRangeOther

datatype rangeResult = RangeInvalid | RangeNoOverlap | Ranges "(nat \<times> nat) list"

record Request =
  Method :: string
  URL_Path :: string
  URLParams :: "(string \<times> string) list"
  IfMatch :: condResult
  IfNoneMatch :: condResult
  IfUnmodifiedSince :: "int option"
  IfModifiedSince :: "int option"
  IfRange :: ifRange
  Range :: "(nat \<Rightarrow> rangeResult) option"

definition URLParam :: "Request \<Rightarrow> string \<Rightarrow> string" where
  "URLParam r key = (case map_of (URLParams r) key of None \<Rightarrow> [] | Some v \<Rightarrow> v)"

text \<open>
  What a handler writes to the body: raw bytes, one JSON document written by a
  \<open>json.Encoder\<close>, the HTML index that the file server writes for a directory, or
  the multipart message that it writes for several byte ranges of a content.
\<close>

datatype chunk =
    Bytes string
  | JsonDoc json
  | DirListing "DirEntry list"
  | MultipartRanges "(nat \<times> nat) list" string

text \<open>
  \<open>http.ResponseWriter\<close>: \<open>header\<close> is the map returned by \<open>w.Header()\<close>;
  \<open>status\<close> is unset until \<open>WriteHeader\<close> runs, explicitly or by the first
  \<open>Write\<close>; \<open>sent\<close> is the header as it stood at that moment, which is what the client
  receives; later changes of \<open>header\<close> are not sent.  \<open>is_head\<close> records that the
  request method is HEAD.
\<close>

record ResponseWriter =
  header :: "string \<rightharpoonup> string"
  status :: "nat option"
  sent :: "string \<rightharpoonup> string"
  body :: "chunk list"
  is_head :: bool

definition newResponseWriter :: "Request \<Rightarrow> ResponseWriter" where
  "newResponseWriter r =
     \<lparr>header = Map.empty, status = None, sent = Map.empty, body = [],
      is_head = (Method r = ''HEAD'')\<rparr>"

definition Header_Set :: "string \<Rightarrow> string \<Rightarrow> ResponseWriter \<Rightarrow> ResponseWriter" where
  "Header_Set k v w = w\<lparr>header := (header w)(k \<mapsto> v)\<rparr>"

definition Header_Del :: "string \<Rightarrow> ResponseWriter \<Rightarrow> ResponseWriter" where
  "Header_Del k w = w\<lparr>header := (header w)(k := None)\<rparr>"

definition Header_Get :: "ResponseWriter \<Rightarrow> string \<Rightarrow> string" where
  "Header_Get w k = (case header w k of None \<Rightarrow> [] | Some v \<Rightarrow> v)"

definition WriteHeader :: "nat \<Rightarrow> ResponseWriter \<Rightarrow> ResponseWriter" where
  "WriteHeader code w =
     (case status w of
        Some c \<Rightarrow> w
      | None \<Rightarrow> w\<lparr>status := Some code, sent := header w\<rparr>)"

definition bodyAllowedForStatus :: "nat \<Rightarrow> bool" where
  "bodyAllowedForStatus code =
     (if 100 \<le> code \<and> code \<le> 199 then False
      else if code = 204 then False
      else if code = 304 then False
      else True)"

definition Write :: "chunk \<Rightarrow> ResponseWriter \<Rightarrow> ResponseWriter" where
  "Write c w =
     (let w1 = WriteHeader 200 w in
      case status w1 of
        None \<Rightarrow> w1
      | Some code \<Rightarrow>
          if bodyAllowedForStatus code \<and> \<not> is_head w1
          then w1\<lparr>body := body w1 @ [c]\<rparr>
          else w1)"

text \<open>When the handler returns without having written, the server sends status 200.\<close>

definition finishRequest :: "ResponseWriter \<Rightarrow> ResponseWriter" where
  "finishRequest w = WriteHeader 200 w"

text \<open>\<open>http.Error\<close>: the message goes out as text, followed by a newline.\<close>

definition http_Error :: "ResponseWriter \<Rightarrow> string \<Rightarrow> nat \<Rightarrow> ResponseWriter" where
  "http_Error w msg code =
     Write (Bytes (msg @ [CHR 0x0A]))
       (WriteHeader code
         (Header_Set ''X-Content-Type-Options'' ''nosniff''
           (Header_Set ''Content-Type'' ''text/plain; charset=utf-8'' w)))"

definition http_NotFound :: "ResponseWriter \<Rightarrow> ResponseWriter" where
  "http_NotFound w = http_Error w ''404 page not found'' 404"

definition Encode :: "json \<Rightarrow> ResponseWriter \<Rightarrow> ResponseWriter" where
  "Encode v w = Write (JsonDoc v) w"

section \<open>The helper and the handlers of \<open>main.go\<close>\<close>

text \<open>
  \<open>getModuleVersions\<close> returns a pair as in Go: the response value and the error.  On
  an error the response is the zero value \<open>ModuleVersionsResp{}\<close>.
\<close>

definition appendVersion :: "ModuleVersions \<Rightarrow> DirEntry \<Rightarrow> ModuleVersions" where
  "appendVersion m v =
     m\<lparr>Versions := append_slice (Versions m) [(''version'', EntryName v)]\<rparr>"

definition getModuleVersions :: "globals \<Rightarrow> string \<Rightarrow> ModuleVersionsResp \<times> error option" where
  "getModuleVersions g modPath =
     (case ReadDir (s3fsys g) modPath of
        Inl err \<Rightarrow> (\<lparr>Modules = None\<rparr>, Some err)
      | Inr versionDirs \<Rightarrow>
          (\<lparr>Modules = Some [foldl appendVersion \<lparr>Versions = None\<rparr> versionDirs]\<rparr>, None))"

definition httpGetServiceDiscovery :: "globals \<Rightarrow> Request \<Rightarrow> ResponseWriter \<Rightarrow> ResponseWriter" where
  "httpGetServiceDiscovery g r w =
     (let s = \<lparr>ModulesV1 = ModuleBasePath\<rparr>
      in Encode (json_ServiceDiscoveryResp s) (Header_Set ''Content-Type'' ''application/json'' w))"

text \<open>
  The two paths that the handlers build, named after the local variables that hold
  them: \<open>modPath\<close> in \<open>httpGetVersions\<close> (the configured prefix comes first) and
  \<open>tfGetHeader\<close> in \<open>httpGetDownloadURL\<close> (the prefix is not an argument).
\<close>

definition modPath :: "string \<Rightarrow> Module \<Rightarrow> string" where
  "modPath pre m = Join [pre, Namespace m, Name m, Provider m]"

definition tfGetHeader :: "Module \<Rightarrow> string" where
  "tfGetHeader m =
     Join [''/download'', Namespace m, Name m, Provider m, Version m, Name m @ ''.tgz'']"

text \<open>
  In \<open>httpGetVersions\<close> the error branch calls \<open>http.Error\<close> and does not return: the
  two statements after it run in both cases.
\<close>

definition httpGetVersions :: "globals \<Rightarrow> Request \<Rightarrow> ResponseWriter \<Rightarrow> ResponseWriter" where
  "httpGetVersions g r w =
     (let m = \<lparr>Namespace = URLParam r ''namespace'', Name = URLParam r ''name'',
               Provider = URLParam r ''provider'', Version = []\<rparr>;
          (modVers, err) = getModuleVersions g (modPath (prefix g) m);
          w1 = (case err of Some e \<Rightarrow> http_Error w (Error e) 500 | None \<Rightarrow> w)
      in Encode (json_ModuleVersionsResp modVers)
           (Header_Set ''Content-Type'' ''application/json'' w1))"

definition httpGetDownloadURL :: "globals \<Rightarrow> Request \<Rightarrow> ResponseWriter \<Rightarrow> ResponseWriter" where
  "httpGetDownloadURL g r w =
     (let m = \<lparr>Namespace = URLParam r ''namespace'', Name = URLParam r ''name'',
               Provider = URLParam r ''provider'', Version = URLParam r ''version''\<rparr>
      in WriteHeader 204 (Header_Set ''X-Terraform-Get'' (tfGetHeader m) w))"

subsection \<open>The file server behind \<open>httpGetModule\<close>\<close>

text \<open>
  \<open>http.StripPrefix\<close> and \<open>http.FileServer(http.FS(s3fsys))\<close>.  The handler sets
  \<open>Content-Type\<close> before it calls the file server, so the file server does not derive
  one.  Left out: the \<open>Last-Modified\<close> header (the text of a date), the boundary
  parameter that the library chooses at random for a multipart answer, and the content
  length of such an answer.
\<close>

definition localRedirect :: "ResponseWriter \<Rightarrow> Request \<Rightarrow> string \<Rightarrow> ResponseWriter" where
  "localRedirect w r newPath = WriteHeader 301 (Header_Set ''Location'' newPath w)"

definition toHTTPError :: "error \<Rightarrow> string \<times> nat" where
  "toHTTPError err =
     (case err_is err of
        ErrNotExist \<Rightarrow> (''404 page not found'', 404)
      | ErrPermission \<Rightarrow> (''403 Forbidden'', 403)
      | ErrOther \<Rightarrow> (''500 Internal Server Error'', 500))"

text \<open>
  \<open>mapOpenError\<close>: an error that is neither not-exist nor permission becomes
  not-exist when some parent of the name is not a directory.  The second argument of
  the loop holds \<open>parts[:i]\<close>, the third \<open>parts[i:]\<close>.
\<close>

fun mapOpenError_parts :: "FS \<Rightarrow> error \<Rightarrow> string list \<Rightarrow> string list \<Rightarrow> error" where
  "mapOpenError_parts fsys originalErr seen [] = originalErr"
| "mapOpenError_parts fsys originalErr seen (p # ps) =
     (if p = [] then mapOpenError_parts fsys originalErr (seen @ [p]) ps
      else case Stat fsys (strings_Join (seen @ [p]) ''/'') of
             Inl err \<Rightarrow> originalErr
           | Inr isDir \<Rightarrow>
               if \<not> isDir then fs_ErrNotExist
               else mapOpenError_parts fsys originalErr (seen @ [p]) ps)"

definition mapOpenError :: "FS \<Rightarrow> error \<Rightarrow> string \<Rightarrow> error" where
  "mapOpenError fsys originalErr name =
     (if err_is originalErr = ErrNotExist \<or> err_is originalErr = ErrPermission then originalErr
      else mapOpenError_parts fsys originalErr [] (Split name CHR ''/''))"

text \<open>\<open>http.FS(fsys).Open\<close>: the name under which the storage is asked, and the call.\<close>

definition ioFS_name :: "string \<Rightarrow> string" where
  "ioFS_name name = (if name = ''/'' then ''.'' else TrimPrefix name ''/'')"

definition ioFS_Open :: "FS \<Rightarrow> string \<Rightarrow> error + node" where
  "ioFS_Open fsys name =
     (case Open fsys (ioFS_name name) of
        Inl err \<Rightarrow> Inl (mapOpenError fsys err (ioFS_name name))
      | Inr file \<Rightarrow> Inr file)"

text \<open>Decimal text of a number, as \<open>strconv\<close> and \<open>fmt\<close> print it.\<close>

fun decimal :: "nat \<Rightarrow> string" where
  "decimal n =
     (if n < 10 then [char_of (48 + n)]
      else decimal (n div 10) @ [char_of (48 + n mod 10)])"

definition itoa :: "int \<Rightarrow> string" where
  "itoa i = (if i < 0 then ''-'' @ decimal (nat (- i)) else decimal (nat i))"

text \<open>
  The checks of conditional requests.  \<open>isZeroTime\<close> holds for Go's zero time and for
  the Unix epoch.
\<close>

definition isZeroTime :: "int option \<Rightarrow> bool" where
  "isZeroTime modtime = (case modtime of None \<Rightarrow> True | Some t \<Rightarrow> t = 0)"

definition checkIfUnmodifiedSince :: "Request \<Rightarrow> int option \<Rightarrow> condResult" where
  "checkIfUnmodifiedSince r modtime =
     (case IfUnmodifiedSince r of
        None \<Rightarrow> condNone
      | Some t \<Rightarrow>
          (case modtime of
             None \<Rightarrow> condNone
           | Some mt \<Rightarrow> if mt = 0 then condNone else if mt \<le> t then condTrue else condFalse))"

definition checkIfModifiedSince :: "Request \<Rightarrow> int option \<Rightarrow> condResult" where
  "checkIfModifiedSince r modtime =
     (if Method r \<noteq> ''GET'' \<and> Method r \<noteq> ''HEAD'' then condNone
      else case IfModifiedSince r of
             None \<Rightarrow> condNone
           | Some t \<Rightarrow>
               (case modtime of
                  None \<Rightarrow> condNone
                | Some mt \<Rightarrow> if mt = 0 then condNone else if t < mt then condTrue else condFalse))"

definition checkIfRange :: "Request \<Rightarrow> int option \<Rightarrow> condResult" where
  "checkIfRange r modtime =
     (if Method r \<noteq> ''GET'' \<and> Method r \<noteq> ''HEAD'' then condNone
      else case IfRange r of
             IfRangeAbsent \<Rightarrow> condNone
           | IfRangeETag \<Rightarrow> condFalse
           | IfRangeDate t \<Rightarrow>
               (case modtime of
                  None \<Rightarrow> condFalse
                | Some mt \<Rightarrow> if t = mt then condTrue else condFalse)
           | IfRangeOther \<Rightarrow> condFalse)"

text \<open>
  \<open>checkPreconditions\<close>, in two parts: the decision, which reads the request and the
  modification time only, and (in \<open>serveContent\<close> below) the writing of the status 412
  or 304 that goes with it.  When the request may proceed, the decision carries the
  \<open>Range\<close> header that is left after \<open>If-Range\<close> has been looked at.
\<close>

datatype precondition = PreconditionFailed | NotModified | Proceed "(nat \<Rightarrow> rangeResult) option"

definition rangeHeader :: "Request \<Rightarrow> int option \<Rightarrow> (nat \<Rightarrow> rangeResult) option" where
  "rangeHeader r modtime =
     (case Range r of
        None \<Rightarrow> None
      | Some ra \<Rightarrow> if checkIfRange r modtime = condFalse then None else Some ra)"

definition preconditions :: "Request \<Rightarrow> int option \<Rightarrow> precondition" where
  "preconditions r modtime =
     (let ch = (if IfMatch r = condNone then checkIfUnmodifiedSince r modtime else IfMatch r)
      in if ch = condFalse then PreconditionFailed
         else case IfNoneMatch r of
                condFalse \<Rightarrow>
                  if Method r = ''GET'' \<or> Method r = ''HEAD'' then NotModified
                  else PreconditionFailed
              | condNone \<Rightarrow>
                  if checkIfModifiedSince r modtime = condFalse then NotModified
                  else Proceed (rangeHeader r modtime)
              | condTrue \<Rightarrow> Proceed (rangeHeader r modtime))"

definition writeNotModified :: "ResponseWriter \<Rightarrow> ResponseWriter" where
  "writeNotModified w =
     (let w1 = Header_Del ''Content-Encoding''
                 (Header_Del ''Content-Length'' (Header_Del ''Content-Type'' w));
          w2 = (if Header_Get w1 ''Etag'' \<noteq> [] then Header_Del ''Last-Modified'' w1 else w1)
      in WriteHeader 304 w2)"

text \<open>
  The ranges that \<open>serveContent\<close> serves: none when the header is absent, when no range
  overlaps an empty content, or when the ranges together are longer than the content.
\<close>

definition parseRange :: "(nat \<Rightarrow> rangeResult) option \<Rightarrow> nat \<Rightarrow> rangeResult" where
  "parseRange rangeReq sz = (case rangeReq of None \<Rightarrow> Ranges [] | Some ra \<Rightarrow> ra sz)"

definition sumRangesSize :: "(nat \<times> nat) list \<Rightarrow> nat" where
  "sumRangesSize ranges = sum_list (map snd ranges)"

definition selectRanges :: "(nat \<Rightarrow> rangeResult) option \<Rightarrow> nat \<Rightarrow> rangeResult" where
  "selectRanges rangeReq sz =
     (case parseRange rangeReq sz of
        RangeInvalid \<Rightarrow> RangeInvalid
      | RangeNoOverlap \<Rightarrow> if sz = 0 then Ranges [] else RangeNoOverlap
      | Ranges ranges \<Rightarrow> if sz < sumRangesSize ranges then Ranges [] else Ranges ranges)"

definition contentRange :: "nat \<Rightarrow> nat \<Rightarrow> nat \<Rightarrow> string" where
  "contentRange start len sz =
     ''bytes '' @ itoa (int start) @ ''-'' @ itoa (int start + int len - 1) @ ''/'' @ itoa (int sz)"

text \<open>
  The end of \<open>serveContent\<close>: \<open>Accept-Ranges\<close>, the content length unless a content
  encoding is set, the status, and the body unless the method is HEAD.
\<close>

definition sendContent :: "ResponseWriter \<Rightarrow> Request \<Rightarrow> nat \<Rightarrow> nat option \<Rightarrow> chunk \<Rightarrow> ResponseWriter" where
  "sendContent w r code sendSize content =
     (let w1 = Header_Set ''Accept-Ranges'' ''bytes'' w;
          w2 = (case sendSize of
                  None \<Rightarrow> w1
                | Some n \<Rightarrow>
                    if Header_Get w1 ''Content-Encoding'' = [] then
                      Header_Set ''Content-Length'' (decimal n) w1
                    else w1);
          w3 = WriteHeader code w2
      in if Method r \<noteq> ''HEAD'' then Write content w3 else w3)"

definition serveContent :: "ResponseWriter \<Rightarrow> Request \<Rightarrow> int option \<Rightarrow> string \<Rightarrow> ResponseWriter" where
  "serveContent w r modtime content =
     (case preconditions r modtime of
        PreconditionFailed \<Rightarrow> WriteHeader 412 w
      | NotModified \<Rightarrow> writeNotModified w
      | Proceed rangeReq \<Rightarrow>
          (let sz = length content in
           case selectRanges rangeReq sz of
             RangeInvalid \<Rightarrow> http_Error w ''invalid range'' 416
           | RangeNoOverlap \<Rightarrow>
               http_Error (Header_Set ''Content-Range'' (''bytes */'' @ decimal sz) w)
                 ''invalid range: failed to overlap'' 416
           | Ranges [] \<Rightarrow> sendContent w r 200 (Some sz) (Bytes content)
           | Ranges [ra] \<Rightarrow>
               sendContent
                 (Header_Set ''Content-Range'' (contentRange (fst ra) (snd ra) sz) w)
                 r 206 (Some (snd ra)) (Bytes (take (snd ra) (drop (fst ra) content)))
           | Ranges ranges \<Rightarrow>
               sendContent (Header_Set ''Content-Type'' ''multipart/byteranges'' w)
                 r 206 None (MultipartRanges ranges content)))"

definition dirList :: "ResponseWriter \<Rightarrow> Request \<Rightarrow> DirEntry list \<Rightarrow> ResponseWriter" where
  "dirList w r dirs =
     Write (DirListing dirs) (Header_Set ''Content-Type'' ''text/html; charset=utf-8'' w)"

definition endsInSlash :: "string \<Rightarrow> bool" where
  "endsInSlash url = (case rev url of [] \<Rightarrow> False | c # cs \<Rightarrow> c = CHR ''/'')"

text \<open>
  \<open>serveFile\<close> is called with a path that starts with a slash, so
  \<open>url[len(url)-1]\<close> is in range.
\<close>

definition serveDir :: "ResponseWriter \<Rightarrow> Request \<Rightarrow> int option \<Rightarrow> DirEntry list \<Rightarrow> ResponseWriter" where
  "serveDir w r modtime dirs =
     (if checkIfModifiedSince r modtime = condFalse then writeNotModified w
      else dirList w r dirs)"

definition serveFile :: "ResponseWriter \<Rightarrow> Request \<Rightarrow> FS \<Rightarrow> string \<Rightarrow> bool \<Rightarrow> ResponseWriter" where
  "serveFile w r fsys name redirect =
     (if HasSuffix (URL_Path r) ''/index.html'' then localRedirect w r ''./''
      else
        case ioFS_Open fsys name of
          Inl err \<Rightarrow> (case toHTTPError err of (msg, code) \<Rightarrow> http_Error w msg code)
        | Inr d \<Rightarrow>
            (let url = URL_Path r in
             if redirect \<and> IsDir d \<and> \<not> endsInSlash url then
               localRedirect w r (Base url @ ''/'')
             else if redirect \<and> \<not> IsDir d \<and> endsInSlash url then
               localRedirect w r (''../'' @ Base url)
             else
               case d of
                 File content \<Rightarrow> serveContent w r (ModTime fsys (ioFS_name name)) content
               | Dir dirs \<Rightarrow>
                   if \<not> endsInSlash url then localRedirect w r (Base url @ ''/'')
                   else
                     (let index = TrimSuffix name ''/'' @ ''/index.html'' in
                      case ioFS_Open fsys index of
                        Inl err \<Rightarrow> serveDir w r (ModTime fsys (ioFS_name name)) dirs
                      | Inr (File content) \<Rightarrow>
                          serveContent w r (ModTime fsys (ioFS_name index)) content
                      | Inr (Dir dirs') \<Rightarrow>
                          serveDir w r (ModTime fsys (ioFS_name index)) dirs')))"

definition FileServer :: "FS \<Rightarrow> Request \<Rightarrow> ResponseWriter \<Rightarrow> ResponseWriter" where
  "FileServer root r w =
     (let upath = (if HasPrefix (URL_Path r) ''/'' then URL_Path r else ''/'' @ URL_Path r)
      in serveFile w (r\<lparr>URL_Path := upath\<rparr>) root (Clean upath) True)"

definition StripPrefix ::
  "string \<Rightarrow> (Request \<Rightarrow> ResponseWriter \<Rightarrow> ResponseWriter) \<Rightarrow> Request \<Rightarrow> ResponseWriter \<Rightarrow> ResponseWriter" where
  "StripPrefix pre h r w =
     (if pre = [] then h r w
      else let p = TrimPrefix (URL_Path r) pre
           in if length p < length (URL_Path r) then h (r\<lparr>URL_Path := p\<rparr>) w
              else http_NotFound w)"

definition httpGetModule :: "globals \<Rightarrow> Request \<Rightarrow> ResponseWriter \<Rightarrow> ResponseWriter" where
  "httpGetModule g r w =
     StripPrefix ''/download/'' (FileServer (s3fsys g)) r
       (Header_Set ''Content-Type'' ''application/x-gzip''
         (Header_Set ''Content-Encoding'' ''application/octet-stream'' w))"

section \<open>The router set up in \<open>main\<close>\<close>

text \<open>
  The five routes are registered with \<open>r.Get\<close> on a chi router, behind the middlewares
  \<open>GetHead\<close> and \<open>Heartbeat("/is_alive")\<close>.  (\<open>RealIP\<close>, \<open>RequestID\<close>,
  \<open>Recoverer\<close> and \<open>Logger\<close> change neither the routing nor the response.)  Every
  pattern of the table is a sequence of whole path segments: a literal, a named
  parameter \<open>{x}\<close>, or the final \<open>*\<close>.
\<close>

datatype handler = HttpGetServiceDiscovery | HttpGetVersions | HttpGetDownloadURL | HttpGetModule

definition routes :: "(string \<times> string \<times> handler) list" where
  "routes =
     [(''GET'', ''/'', HttpGetServiceDiscovery),
      (''GET'', ''/.well-known/terraform.json'', HttpGetServiceDiscovery),
      (''GET'', ModuleBasePath @ ''/{namespace}/{name}/{provider}/versions'', HttpGetVersions),
      (''GET'', ModuleBasePath @ ''/{namespace}/{name}/{provider}/{version}/download'',
         HttpGetDownloadURL),
      (''GET'', ''/download/*'', HttpGetModule)]"

datatype segment = Static string | Param string | CatchAll

definition patSegment :: "string \<Rightarrow> segment" where
  "patSegment s =
     (if s = ''*'' then CatchAll
      else if 2 \<le> length s \<and> hd s = CHR ''{'' \<and> last s = CHR ''}'' then Param (butlast (tl s))
      else Static s)"

text \<open>
  A parameter takes one segment, without a slash; chi refuses an empty value only when
  nothing at all is left of the path.  The wildcard takes the rest, slashes included.
\<close>

fun matchSegments :: "segment list \<Rightarrow> string list \<Rightarrow> (string \<times> string) list option" where
  "matchSegments [] [] = Some []"
| "matchSegments [CatchAll] (x # xs) = Some [(''*'', strings_Join (x # xs) ''/'')]"
| "matchSegments (Static s # ps) (x # xs) = (if s = x then matchSegments ps xs else None)"
| "matchSegments (Param k # ps) (x # xs) =
     (if x = [] \<and> xs = [] then None
      else case matchSegments ps xs of None \<Rightarrow> None | Some kv \<Rightarrow> Some ((k, x) # kv))"
| "matchSegments ps xs = None"

definition matchPattern :: "string \<Rightarrow> string \<Rightarrow> (string \<times> string) list option" where
  "matchPattern pat path =
     matchSegments (map patSegment (Split pat CHR ''/'')) (Split path CHR ''/'')"

definition methodMap :: "string list" where
  "methodMap = [''CONNECT'', ''DELETE'', ''GET'', ''HEAD'', ''OPTIONS'', ''PATCH'', ''POST'',
                ''PUT'', ''TRACE'']"

definition matchingRoutes :: "string \<Rightarrow> (string \<times> handler \<times> (string \<times> string) list) list" where
  "matchingRoutes path =
     List.map_filter
       (\<lambda>(m, pat, h). case matchPattern pat path of None \<Rightarrow> None | Some kv \<Rightarrow> Some (m, h, kv))
       routes"

datatype outcome = Handler handler "(string \<times> string) list" | MethodNotAllowed | NotFound

text \<open>
  \<open>FindRoute\<close>: a route whose pattern and method both match; failing that, method not
  allowed when some pattern matches the path, not found when none does.
\<close>

definition FindRoute :: "string \<Rightarrow> string \<Rightarrow> outcome" where
  "FindRoute method path =
     (case List.find (\<lambda>(m, h, kv). m = method) (matchingRoutes path) of
        Some (m, h, kv) \<Rightarrow> Handler h kv
      | None \<Rightarrow> if matchingRoutes path = [] then NotFound else MethodNotAllowed)"

definition routeHTTP :: "string \<Rightarrow> string \<Rightarrow> outcome" where
  "routeHTTP routeMethod path =
     (let routePath = (if path = [] then ''/'' else path)
      in if routeMethod \<in> set methodMap then FindRoute routeMethod routePath
         else MethodNotAllowed)"

fun isHandler :: "outcome \<Rightarrow> bool" where
  "isHandler (Handler h kv) = True"
| "isHandler MethodNotAllowed = False"
| "isHandler NotFound = False"

definition Match :: "string \<Rightarrow> string \<Rightarrow> bool" where
  "Match method path = (method \<in> set methodMap \<and> isHandler (FindRoute method path))"

text \<open>
  \<open>middleware.GetHead\<close>: a HEAD request for which no HEAD route exists is routed as
  GET (the request keeps its method).
\<close>

definition GetHead :: "Request \<Rightarrow> string" where
  "GetHead r =
     (if Method r = ''HEAD'' \<and> \<not> Match ''HEAD'' (URL_Path r) then ''GET'' else Method r)"

text \<open>
  \<open>strings.EqualFold\<close> against an ASCII string: besides the ASCII letters of the other
  case, the long s (U+017F) folds to \<open>s\<close> and the Kelvin sign (U+212A) to \<open>k\<close>.
\<close>

fun foldCase :: "string \<Rightarrow> string" where
  "foldCase [] = []"
| "foldCase (c # cs) =
     (if c = CHR 0xC5 \<and> take 1 cs = [CHR 0xBF] then CHR ''s'' # foldCase (drop 1 cs)
      else if c = CHR 0xE2 \<and> take 2 cs = [CHR 0x84, CHR 0xAA] then CHR ''k'' # foldCase (drop 2 cs)
      else if 65 \<le> (of_char c :: nat) \<and> (of_char c :: nat) \<le> 90
        then char_of (of_char c + (32 :: nat)) # foldCase cs
      else c # foldCase cs)"

definition EqualFold :: "string \<Rightarrow> string \<Rightarrow> bool" where
  "EqualFold s t = (foldCase s = foldCase t)"

definition isHeartbeat :: "Request \<Rightarrow> bool" where
  "isHeartbeat r =
     ((Method r = ''GET'' \<or> Method r = ''HEAD'') \<and> EqualFold (URL_Path r) ''/is_alive'')"

datatype dispatched = Heartbeat | Routed outcome

definition dispatch :: "Request \<Rightarrow> dispatched" where
  "dispatch r =
     (if isHeartbeat r then Heartbeat else Routed (routeHTTP (GetHead r) (URL_Path r)))"

fun callHandler :: "handler \<Rightarrow> globals \<Rightarrow> Request \<Rightarrow> ResponseWriter \<Rightarrow> ResponseWriter" where
  "callHandler HttpGetServiceDiscovery = httpGetServiceDiscovery"
| "callHandler HttpGetVersions = httpGetVersions"
| "callHandler HttpGetDownloadURL = httpGetDownloadURL"
| "callHandler HttpGetModule = httpGetModule"

text \<open>
  One request through the server: the response is the writer as the client sees it
  (\<open>status\<close>, \<open>sent\<close>, \<open>body\<close>).
\<close>

definition ServeHTTP :: "globals \<Rightarrow> Request \<Rightarrow> ResponseWriter" where
  "ServeHTTP g r =
     finishRequest
       (let w = newResponseWriter r in
        case dispatch r of
          Heartbeat \<Rightarrow> Write (Bytes ''.'') (WriteHeader 200 (Header_Set ''Content-Type'' ''text/plain'' w))
        | Routed (Handler h kv) \<Rightarrow> callHandler h g (r\<lparr>URLParams := kv\<rparr>) w
        | Routed MethodNotAllowed \<Rightarrow> Write (Bytes []) (WriteHeader 405 w)
        | Routed NotFound \<Rightarrow> http_NotFound w)"

text \<open>A request without any of the headers that the file server reads.\<close>

definition NewRequest :: "string \<Rightarrow> string \<Rightarrow> Request" where
  "NewRequest method path =
     \<lparr>Method = method, URL_Path = path, URLParams = [],
      IfMatch = condNone, IfNoneMatch = condNone, IfUnmodifiedSince = None,
      IfModifiedSince = None, IfRange = IfRangeAbsent, Range = None\<rparr>"

section \<open>Storage handles used as examples\<close>

definition notExist :: "string \<Rightarrow> string \<Rightarrow> error" where
  "notExist op name =
     \<lparr>err_is = ErrNotExist, Error = op @ '' '' @ name @ '': file does not exist''\<rparr>"

text \<open>A bucket without objects.\<close>

definition emptyFS :: FS where
  "emptyFS = \<lparr>ReadDir = (\<lambda>name. Inl (notExist ''readdir'' name)),
              Open = (\<lambda>name. Inl (notExist ''open'' name)),
              ModTime = (\<lambda>name. None)\<rparr>"

text \<open>
  A bucket that holds one module under the prefix \<open>modules\<close>, laid out as the README
  asks (three versions of \<open>acme/vpc/aws\<close> and the archive of version 1.0.0), and
  beside that subtree a directory \<open>vpc/aws\<close> that belongs to something else.
\<close>

definition prefixedFS :: FS where
  "prefixedFS =
     \<lparr>ReadDir = (\<lambda>name.
        if name = ''modules/acme/vpc/aws''
        then Inr [\<lparr>EntryName = ''1.0.0'', EntryIsDir = True\<rparr>,
                  \<lparr>EntryName = ''1.1.0'', EntryIsDir = True\<rparr>,
                  \<lparr>EntryName = ''2.0.0'', EntryIsDir = True\<rparr>]
        else if name = ''vpc/aws''
        then Inr [\<lparr>EntryName = ''9.9.9'', EntryIsDir = True\<rparr>]
        else Inl (notExist ''readdir'' name)),
      Open = (\<lambda>name.
        if name = ''modules/acme/vpc/aws/1.0.0/vpc.tgz'' then Inr (File ''archive bytes'')
        else Inl (notExist ''open'' name)),
      ModTime = (\<lambda>name. Some 1620000000)\<rparr>"

text \<open>
  The same module at the root of the bucket, listed newest first, and a module
  directory without entries.
\<close>

definition rootFS :: FS where
  "rootFS =
     \<lparr>ReadDir = (\<lambda>name.
        if name = ''acme/vpc/aws''
        then Inr [\<lparr>EntryName = ''2.0.0'', EntryIsDir = True\<rparr>,
                  \<lparr>EntryName = ''1.1.0'', EntryIsDir = True\<rparr>,
                  \<lparr>EntryName = ''1.0.0'', EntryIsDir = True\<rparr>]
        else if name = ''acme/empty/aws'' then Inr []
        else Inl (notExist ''readdir'' name)),
      Open = (\<lambda>name.
        if name = ''acme/vpc/aws/1.0.0/vpc.tgz'' then Inr (File ''archive bytes'')
        else Inl (notExist ''open'' name)),
      ModTime = (\<lambda>name. Some 1620000000)\<rparr>"

text \<open>A bucket in which a module directory also holds a file \<open>index.html\<close>.\<close>

definition pagesFS :: FS where
  "pagesFS =
     \<lparr>ReadDir = (\<lambda>name. Inl (notExist ''readdir'' name)),
      Open = (\<lambda>name.
        if name = ''acme/vpc/aws/1.0.0/index.html'' then Inr (File ''page bytes'')
        else if name = ''acme/vpc/aws/1.0.0/vpc.tgz'' then Inr (File ''archive bytes'')
        else Inl (notExist ''open'' name)),
      ModTime = (\<lambda>name. Some 1620000000)\<rparr>"

definition config :: "string \<Rightarrow> FS \<Rightarrow> globals" where
  "config pre fsys =
     \<lparr>bucket = ''tf-registry-storage'', profile = ''default'', prefix = pre, port = ''3000'',
      s3fsys = fsys\<rparr>"

section \<open>Predicates and reference definitions used by the statements\<close>

text \<open>
  A plain path element is what \<open>fs.ValidPath\<close> accepts as an element: not empty, not
  \<open>.\<close>, not \<open>..\<close>, without a slash.  A plain path is one or more plain elements
  separated by single slashes.
\<close>

definition plainElem :: "string \<Rightarrow> bool" where
  "plainElem e = (e \<noteq> [] \<and> e \<noteq> ''.'' \<and> e \<noteq> ''..'' \<and> CHR ''/'' \<notin> set e)"

definition plainPath :: "string \<Rightarrow> bool" where
  "plainPath p = list_all plainElem (Split p CHR ''/'')"

text \<open>
  The specification's module path, read literally: \<open>prefix/namespace/name/provider\<close>,
  the prefix and its slash omitted when the prefix is empty.
\<close>

definition spec_modulePath :: "string \<Rightarrow> Module \<Rightarrow> string" where
  "spec_modulePath pre m =
     (if pre = [] then Namespace m @ ''/'' @ Name m @ ''/'' @ Provider m
      else pre @ ''/'' @ Namespace m @ ''/'' @ Name m @ ''/'' @ Provider m)"

text \<open>
  The specification's storage path of an artifact: the configured prefix joined with
  \<open>namespace/name/provider/version/name.tgz\<close>, the layout the README prescribes for
  uploads.  The program has no function that computes it.
\<close>

definition spec_artifactPath :: "string \<Rightarrow> Module \<Rightarrow> string" where
  "spec_artifactPath pre m =
     Join [pre, Namespace m, Name m, Provider m, Version m, Name m @ ''.tgz'']"

text \<open>A path lies in the subtree of a prefix when it is the prefix or continues it after a slash.\<close>

definition withinSubtree :: "string \<Rightarrow> string \<Rightarrow> bool" where
  "withinSubtree pre p = (if p = pre then True else HasPrefix p (pre @ ''/''))"

text \<open>
  For a request of \<open>/download/rest\<close>: the path that the file server works with, and
  the name under which it asks the storage, which is the key of the request.
\<close>

definition requestPath :: "string \<Rightarrow> string" where
  "requestPath rest = (if HasPrefix rest ''/'' then rest else ''/'' @ rest)"

definition storageKey :: "string \<Rightarrow> string" where
  "storageKey rest = ioFS_name (Clean (requestPath rest))"

text \<open>The bytes of a body that holds nothing but bytes.\<close>

fun bodyBytes :: "chunk list \<Rightarrow> string option" where
  "bodyBytes [] = Some []"
| "bodyBytes (Bytes b # cs) = (case bodyBytes cs of None \<Rightarrow> None | Some bs \<Rightarrow> Some (b @ bs))"
| "bodyBytes (c # cs) = None"

definition needSep :: "bool \<Rightarrow> string \<Rightarrow> string" where
  "needSep rooted out =
     (if rooted \<and> length out \<noteq> 1 \<or> \<not> rooted \<and> length out \<noteq> 0 then ''/'' else [])"

section \<open>Cleaning a path of plain elements\<close>

lemma takeWhile_elem:
  assumes "CHR ''/'' \<notin> set e" and "rest = [] \<or> hd rest = CHR ''/''"
  shows "takeWhile (\<lambda>x. \<not> IsPathSeparator x) (e @ rest) = e"
    and "dropWhile (\<lambda>x. \<not> IsPathSeparator x) (e @ rest) = rest"
proof -
  have a: "\<forall>x\<in>set e. \<not> IsPathSeparator x" using assms(1) by (auto simp: IsPathSeparator_def)
  have t: "takeWhile (\<lambda>x. \<not> IsPathSeparator x) rest = []"
    using assms(2) by (cases rest) (auto simp: IsPathSeparator_def)
  have d: "dropWhile (\<lambda>x. \<not> IsPathSeparator x) rest = rest"
    using assms(2) by (cases rest) (auto simp: IsPathSeparator_def)
  show "takeWhile (\<lambda>x. \<not> IsPathSeparator x) (e @ rest) = e"
    using a t by (simp add: takeWhile_append2)
  show "dropWhile (\<lambda>x. \<not> IsPathSeparator x) (e @ rest) = rest"
    using a d by (simp add: dropWhile_append2)
qed

lemma clean_loop_elem:
  assumes pe: "plainElem e" and r: "rest = [] \<or> hd rest = CHR ''/''"
  shows "clean_loop rooted (e @ rest) out dotdot
           = clean_loop rooted rest (out @ needSep rooted out @ e) dotdot"
proof -
  from pe obtain c cs where e: "e = c # cs" by (cases e) (auto simp: plainElem_def)
  from pe e have c: "\<not> IsPathSeparator c" by (auto simp: plainElem_def IsPathSeparator_def)
  from pe e have ns: "CHR ''/'' \<notin> set cs" by (auto simp: plainElem_def)
  have dot: "\<not> (c = CHR ''.'' \<and> (cs @ rest = [] \<or> IsPathSeparator (hd (cs @ rest))))"
  proof (cases cs)
    case Nil
    with pe e show ?thesis by (auto simp: plainElem_def)
  next
    case (Cons d ds)
    with ns show ?thesis by (auto simp: IsPathSeparator_def)
  qed
  have dotdot: "\<not> (c = CHR ''.'' \<and> hd (cs @ rest) = CHR ''.'' \<and>
                   (tl (cs @ rest) = [] \<or> IsPathSeparator (hd (tl (cs @ rest)))))"
  proof (cases cs)
    case Nil
    with pe e show ?thesis by (auto simp: plainElem_def)
  next
    case (Cons d ds)
    show ?thesis
    proof (cases ds)
      case Nil
      with Cons pe e show ?thesis by (auto simp: plainElem_def)
    next
      case (Cons f fs)
      with \<open>cs = d # ds\<close> ns show ?thesis by (auto simp: IsPathSeparator_def)
    qed
  qed
  have tw: "takeWhile (\<lambda>x. \<not> IsPathSeparator x) (c # cs @ rest) = e"
    and dw: "dropWhile (\<lambda>x. \<not> IsPathSeparator x) (c # cs @ rest) = rest"
    using takeWhile_elem [of e rest] pe r e by (auto simp: plainElem_def)
  have "clean_loop rooted (c # (cs @ rest)) out dotdot
          = clean_loop rooted rest (out @ needSep rooted out @ e) dotdot"
    apply (subst clean_loop.simps(2))
    using c dot dotdot apply (simp only: if_False tw dw)
    apply (simp add: needSep_def)
    done
  then show ?thesis using e by simp
qed

lemma clean_loop_plain:
  assumes "es \<noteq> []" and "list_all plainElem es"
  shows "clean_loop rooted (strings_Join es ''/'') out dotdot
           = out @ needSep rooted out @ strings_Join es ''/''"
  using assms
proof (induction es arbitrary: out)
  case Nil
  then show ?case by simp
next
  case (Cons e es)
  show ?case
  proof (cases es)
    case Nil
    then show ?thesis
      using clean_loop_elem [of e "[]" rooted out dotdot] Cons.prems by simp
  next
    case (Cons e' es')
    have pe: "plainElem e" using Cons.prems by simp
    have ne: "e \<noteq> []" using pe by (simp add: plainElem_def)
    have j: "strings_Join (e # es) ''/'' = e @ (CHR ''/'' # strings_Join es ''/'')"
      using Cons by simp
    have sep: "needSep rooted (out @ needSep rooted out @ e) = ''/''"
      using ne by (cases e) (auto simp: needSep_def)
    have "clean_loop rooted (strings_Join (e # es) ''/'') out dotdot
            = clean_loop rooted (CHR ''/'' # strings_Join es ''/'') (out @ needSep rooted out @ e) dotdot"
      unfolding j using clean_loop_elem [OF pe, of "CHR ''/'' # strings_Join es ''/''"] by simp
    also have "\<dots> = clean_loop rooted (strings_Join es ''/'') (out @ needSep rooted out @ e) dotdot"
      by (simp add: IsPathSeparator_def)
    also have "\<dots> = (out @ needSep rooted out @ e) @ ''/'' @ strings_Join es ''/''"
      using Cons.IH [of "out @ needSep rooted out @ e"] Cons.prems Cons sep by simp
    finally show ?thesis using j by simp
  qed
qed

lemma strings_Join_nonempty:
  assumes "es \<noteq> []" and "list_all plainElem es"
  shows "strings_Join es ''/'' \<noteq> []" and "hd (strings_Join es ''/'') \<noteq> CHR ''/''"
proof -
  from assms obtain e es' where es: "es = e # es'" by (cases es) auto
  with assms obtain c cs where e: "e = c # cs" and c: "c \<noteq> CHR ''/''"
    by (cases e) (auto simp: plainElem_def)
  show "strings_Join es ''/'' \<noteq> []" using es e by (cases es') auto
  show "hd (strings_Join es ''/'') \<noteq> CHR ''/''" using es e c by (cases es') auto
qed

lemma Clean_plain:
  assumes "es \<noteq> []" and "list_all plainElem es"
  shows "Clean (strings_Join es ''/'') = strings_Join es ''/''"
  using clean_loop_plain [OF assms, of False "[]" 0] strings_Join_nonempty [OF assms]
  by (simp add: Clean_def IsPathSeparator_def needSep_def Let_def)

lemma Clean_rooted_plain:
  assumes "es \<noteq> []" and "list_all plainElem es"
  shows "Clean (CHR ''/'' # strings_Join es ''/'') = CHR ''/'' # strings_Join es ''/''"
  using clean_loop_plain [OF assms, of True "''/''" 1]
  by (simp add: Clean_def IsPathSeparator_def needSep_def Let_def)

lemma Split_nonempty: "Split s c \<noteq> []"
  by (induction s) (auto split: list.splits)

lemma Join_Split: "strings_Join (Split s c) [c] = s"
proof (induction s)
  case Nil
  then show ?case by simp
next
  case (Cons x xs)
  obtain e es where sp: "Split xs c = e # es" using Split_nonempty [of xs c] by (cases "Split xs c") auto
  show ?case
  proof (cases "x = c")
    case True
    then show ?thesis using Cons sp by simp
  next
    case False
    then show ?thesis using Cons sp by (cases es) auto
  qed
qed

lemma strings_Join_append:
  assumes "xs \<noteq> []" and "ys \<noteq> []"
  shows "strings_Join (xs @ ys) sep = strings_Join xs sep @ sep @ strings_Join ys sep"
  using assms
proof (induction xs)
  case Nil
  then show ?case by simp
next
  case (Cons x xs)
  then show ?case
  proof (cases xs)
    case Nil
    then show ?thesis using Cons.prems by (cases ys) auto
  next
    case (Cons x' xs')
    then show ?thesis using Cons.IH Cons.prems by simp
  qed
qed


lemma plainPath_Split:
  assumes "plainPath p"
  shows "Split p CHR ''/'' \<noteq> []" and "list_all plainElem (Split p CHR ''/'')"
    and "strings_Join (Split p CHR ''/'') ''/'' = p"
  using assms Split_nonempty [of p "CHR ''/''"] Join_Split [of p "CHR ''/''"]
  by (simp_all add: plainPath_def)

lemma Clean_plainPath: "plainPath p \<Longrightarrow> Clean p = p"
  using Clean_plain [of "Split p CHR ''/''"] plainPath_Split [of p] by simp

lemma Clean_rooted_plainPath: "plainPath p \<Longrightarrow> Clean (CHR ''/'' # p) = CHR ''/'' # p"
  using Clean_rooted_plain [of "Split p CHR ''/''"] plainPath_Split [of p] by simp

lemma Clean_plainPath_append:
  assumes "plainPath p" and "es \<noteq> []" and "list_all plainElem es"
  shows "Clean (p @ ''/'' @ strings_Join es ''/'') = p @ ''/'' @ strings_Join es ''/''"
proof -
  let ?ps = "Split p CHR ''/''"
  have "strings_Join (?ps @ es) ''/'' = p @ ''/'' @ strings_Join es ''/''"
    using strings_Join_append [of ?ps es "''/''"] plainPath_Split [OF assms(1)] assms(2)
    by simp
  moreover have "Clean (strings_Join (?ps @ es) ''/'') = strings_Join (?ps @ es) ''/''"
    using Clean_plain [of "?ps @ es"] plainPath_Split [OF assms(1)] assms(3) by simp
  ultimately show ?thesis by simp
qed

section \<open>The module path (C5, C9)\<close>

text \<open>
  C5, as stated: for all valid triples and every prefix the module path is exactly
  \<open>prefix/namespace/name/provider\<close>.  That fails for a prefix that is not in cleaned
  form: with the prefix \<open>modules/\<close> (a trailing slash) the program lists
  \<open>modules/acme/vpc/aws\<close>, while the literal concatenation has two slashes.
\<close>

theorem modPath_trailing_slash_counterexample:
  "plainElem ''acme'' \<and> plainElem ''vpc'' \<and> plainElem ''aws''
   \<and> modPath ''modules/'' \<lparr>Namespace = ''acme'', Name = ''vpc'', Provider = ''aws'', Version = []\<rparr>
       = ''modules/acme/vpc/aws''
   \<and> spec_modulePath ''modules/'' \<lparr>Namespace = ''acme'', Name = ''vpc'', Provider = ''aws'', Version = []\<rparr>
       = ''modules//acme/vpc/aws''
   \<and> modPath ''modules/'' \<lparr>Namespace = ''acme'', Name = ''vpc'', Provider = ''aws'', Version = []\<rparr>
       \<noteq> spec_modulePath ''modules/'' \<lparr>Namespace = ''acme'', Name = ''vpc'', Provider = ''aws'', Version = []\<rparr>"
  by (simp add: plainElem_def modPath_def spec_modulePath_def Join_def Clean_def IsPathSeparator_def)

text \<open>
  Reading a path up to a separator leaves \<open>Clean\<close> in the state in which it goes on
  with the rest: the output so far is what the loop returns for the part read.
\<close>

lemma takeWhile_dropWhile_sep:
  "takeWhile (\<lambda>x. \<not> IsPathSeparator x) (xs @ CHR ''/'' # q) = takeWhile (\<lambda>x. \<not> IsPathSeparator x) xs"
  "dropWhile (\<lambda>x. \<not> IsPathSeparator x) (xs @ CHR ''/'' # q)
     = dropWhile (\<lambda>x. \<not> IsPathSeparator x) xs @ CHR ''/'' # q"
  by (induction xs) (simp_all add: IsPathSeparator_def)

lemma clean_loop_through_separator:
  "\<exists>dd. \<forall>q. clean_loop rooted (p @ CHR ''/'' # q) out dotdot
              = clean_loop rooted q (clean_loop rooted p out dotdot) dd"
proof (induction rooted p out dotdot rule: clean_loop.induct)
  case (1 rooted out dotdot)
  have "\<forall>q. clean_loop rooted ([] @ CHR ''/'' # q) out dotdot
              = clean_loop rooted q (clean_loop rooted [] out dotdot) dotdot"
    by (simp add: IsPathSeparator_def)
  then show ?case by blast
next
  case (2 rooted c cs out dotdot)
  let ?dot = "c = CHR ''.'' \<and> (cs = [] \<or> IsPathSeparator (hd cs))"
  let ?dotdot = "c = CHR ''.'' \<and> hd cs = CHR ''.'' \<and> (tl cs = [] \<or> IsPathSeparator (hd (tl cs)))"
  have dot: "(c = CHR ''.'' \<and> (cs @ CHR ''/'' # q = [] \<or> IsPathSeparator (hd (cs @ CHR ''/'' # q)))) = ?dot" for q
    by (cases cs) (simp_all add: IsPathSeparator_def)
  have dotdot: "(c = CHR ''.'' \<and> hd (cs @ CHR ''/'' # q) = CHR ''.''
                   \<and> (tl (cs @ CHR ''/'' # q) = [] \<or> IsPathSeparator (hd (tl (cs @ CHR ''/'' # q))))) = ?dotdot"
    if "\<not> ?dot" for q
  proof (cases cs)
    case Nil
    with that show ?thesis by (simp add: IsPathSeparator_def)
  next
    case (Cons d ds)
    then show ?thesis by (cases ds) (simp_all add: IsPathSeparator_def)
  qed
  have tlc: "tl (cs @ CHR ''/'' # q) = tl cs @ CHR ''/'' # q" if "\<not> ?dot" "?dotdot" for q
    using that by (cases cs) (simp_all add: IsPathSeparator_def)
  show ?case
  proof (cases "IsPathSeparator c")
    case True
    from "2.IH"(1) [OF True] obtain dd where
      "\<forall>q. clean_loop rooted (cs @ CHR ''/'' # q) out dotdot = clean_loop rooted q (clean_loop rooted cs out dotdot) dd"
      by blast
    then have "\<forall>q. clean_loop rooted ((c # cs) @ CHR ''/'' # q) out dotdot
                 = clean_loop rooted q (clean_loop rooted (c # cs) out dotdot) dd"
      using True by simp
    then show ?thesis by blast
  next
    case sep: False
    show ?thesis
    proof (cases ?dot)
      case True
      from "2.IH"(2) [OF sep True] obtain dd where
        "\<forall>q. clean_loop rooted (cs @ CHR ''/'' # q) out dotdot = clean_loop rooted q (clean_loop rooted cs out dotdot) dd"
        by blast
      then have "\<forall>q. clean_loop rooted ((c # cs) @ CHR ''/'' # q) out dotdot
                   = clean_loop rooted q (clean_loop rooted (c # cs) out dotdot) dd"
        using sep True dot by simp
      then show ?thesis by blast
    next
      case nd: False
      show ?thesis
      proof (cases ?dotdot)
        case True
        note dd = dotdot [OF nd] tlc [OF nd True]
        show ?thesis
        proof (cases "dotdot < length out")
          case bt: True
          from "2.IH"(3) [OF sep nd True bt] obtain dd' where
            "\<forall>q. clean_loop rooted (tl cs @ CHR ''/'' # q) (take (backtrack dotdot out (length out - 1)) out) dotdot
               = clean_loop rooted q (clean_loop rooted (tl cs) (take (backtrack dotdot out (length out - 1)) out) dotdot) dd'"
            by blast
          then have "\<forall>q. clean_loop rooted ((c # cs) @ CHR ''/'' # q) out dotdot
                       = clean_loop rooted q (clean_loop rooted (c # cs) out dotdot) dd'"
            using sep nd True bt dot dd by simp
          then show ?thesis by blast
        next
          case nb: False
          show ?thesis
          proof (cases rooted)
            case r: True
            then have nr: "\<not> \<not> rooted" by simp
            from "2.IH"(5) [OF sep nd True nb nr] obtain dd' where
              "\<forall>q. clean_loop rooted (tl cs @ CHR ''/'' # q) out dotdot
                 = clean_loop rooted q (clean_loop rooted (tl cs) out dotdot) dd'"
              by blast
            then have "\<forall>q. clean_loop rooted ((c # cs) @ CHR ''/'' # q) out dotdot
                         = clean_loop rooted q (clean_loop rooted (c # cs) out dotdot) dd'"
              using sep nd True nb r dot dd by simp
            then show ?thesis by blast
          next
            case r: False
            let ?o = "(if length out > 0 then out @ ''/'' else out) @ ''..''"
            from "2.IH"(4) [OF sep nd True nb r] obtain dd' where
              "\<forall>q. clean_loop rooted (tl cs @ CHR ''/'' # q) ?o (length ?o)
                 = clean_loop rooted q (clean_loop rooted (tl cs) ?o (length ?o)) dd'"
              by blast
            then have "\<forall>q. clean_loop rooted ((c # cs) @ CHR ''/'' # q) out dotdot
                         = clean_loop rooted q (clean_loop rooted (c # cs) out dotdot) dd'"
              using sep nd True nb r dot dd by simp
            then show ?thesis by blast
          qed
        qed
      next
        case ndd: False
        let ?o = "(if rooted \<and> length out \<noteq> 1 \<or> \<not> rooted \<and> length out \<noteq> 0 then out @ ''/'' else out)
                    @ takeWhile (\<lambda>x. \<not> IsPathSeparator x) (c # cs)"
        from "2.IH"(6) [OF sep nd ndd] obtain dd' where
          "\<forall>q. clean_loop rooted (dropWhile (\<lambda>x. \<not> IsPathSeparator x) (c # cs) @ CHR ''/'' # q) ?o dotdot
             = clean_loop rooted q (clean_loop rooted (dropWhile (\<lambda>x. \<not> IsPathSeparator x) (c # cs)) ?o dotdot) dd'"
          by blast
        moreover have L: "clean_loop rooted (c # (cs @ CHR ''/'' # q)) out dotdot
            = clean_loop rooted (dropWhile (\<lambda>x. \<not> IsPathSeparator x) (c # cs) @ CHR ''/'' # q) ?o dotdot" for q
        proof -
          have tw: "takeWhile (\<lambda>x. \<not> IsPathSeparator x) (c # (cs @ CHR ''/'' # q))
                         = takeWhile (\<lambda>x. \<not> IsPathSeparator x) (c # cs)"
            and dw: "dropWhile (\<lambda>x. \<not> IsPathSeparator x) (c # (cs @ CHR ''/'' # q))
                         = dropWhile (\<lambda>x. \<not> IsPathSeparator x) (c # cs) @ CHR ''/'' # q"
            using takeWhile_dropWhile_sep [of "c # cs" q] by simp_all
          show ?thesis
            apply (subst clean_loop.simps(2))
            apply (simp only: dot dotdot [OF nd] sep nd ndd if_False tw dw)
            done
        qed
        moreover have R: "clean_loop rooted (c # cs) out dotdot
            = clean_loop rooted (dropWhile (\<lambda>x. \<not> IsPathSeparator x) (c # cs)) ?o dotdot"
          apply (subst clean_loop.simps(2))
          apply (simp only: sep nd ndd if_False)
          done
        ultimately have "\<forall>q. clean_loop rooted ((c # cs) @ CHR ''/'' # q) out dotdot
                     = clean_loop rooted q (clean_loop rooted (c # cs) out dotdot) dd'"
          by (simp only: append_Cons simp_thms)
        then show ?thesis by blast
      qed
    qed
  qed
qed

lemma Clean_prefix_plain:
  assumes pre: "pre \<noteq> []" and es: "es \<noteq> []" "list_all plainElem es"
  defines "rooted \<equiv> IsPathSeparator (hd pre)"
  defines "out \<equiv> (if rooted then clean_loop rooted (tl pre) ''/'' 1 else clean_loop rooted pre [] 0)"
  shows "Clean (pre @ CHR ''/'' # strings_Join es ''/'') = out @ needSep rooted out @ strings_Join es ''/''"
    and "Clean pre = (if out = [] then ''.'' else out)"
proof -
  let ?J = "strings_Join es ''/''"
  have J: "?J \<noteq> []" using strings_Join_nonempty(1) [OF es] .
  have hd: "hd (pre @ CHR ''/'' # ?J) = hd pre" and tl: "tl (pre @ CHR ''/'' # ?J) = tl pre @ CHR ''/'' # ?J"
    using pre by (cases pre; simp)+
  have loop: "(if rooted then clean_loop rooted (tl pre @ CHR ''/'' # ?J) ''/'' 1
               else clean_loop rooted (pre @ CHR ''/'' # ?J) [] 0)
              = out @ needSep rooted out @ ?J"
  proof (cases rooted)
    case True
    obtain dd where "clean_loop rooted (tl pre @ CHR ''/'' # ?J) ''/'' 1
        = clean_loop rooted ?J (clean_loop rooted (tl pre) ''/'' 1) dd"
      using clean_loop_through_separator [of rooted "tl pre" "''/''" 1] by blast
    then show ?thesis using True clean_loop_plain [OF es] by (simp add: out_def)
  next
    case False
    obtain dd where "clean_loop rooted (pre @ CHR ''/'' # ?J) [] 0
        = clean_loop rooted ?J (clean_loop rooted pre [] 0) dd"
      using clean_loop_through_separator [of rooted pre "[]" 0] by blast
    then show ?thesis using False clean_loop_plain [OF es] by (simp add: out_def)
  qed
  define Z where "Z = out @ needSep rooted out @ ?J"
  have Z: "Z \<noteq> []" using J by (simp add: Z_def)
  have "Clean (pre @ CHR ''/'' # ?J) = Z"
  proof (cases rooted)
    case True
    then have "clean_loop True (tl (pre @ CHR ''/'' # ?J)) ''/'' 1 = Z"
      using loop by (simp add: Z_def tl)
    moreover have "IsPathSeparator (hd (pre @ CHR ''/'' # ?J))" using True hd by (simp add: rooted_def)
    ultimately show ?thesis using Z by (simp add: Clean_def Let_def)
  next
    case False
    then have "clean_loop False (pre @ CHR ''/'' # ?J) [] 0 = Z"
      using loop by (simp add: Z_def)
    moreover have "\<not> IsPathSeparator (hd (pre @ CHR ''/'' # ?J))" using False hd by (simp add: rooted_def)
    ultimately show ?thesis using Z by (simp add: Clean_def Let_def)
  qed
  then show "Clean (pre @ CHR ''/'' # ?J) = out @ needSep rooted out @ ?J" by (simp only: Z_def)
  show "Clean pre = (if out = [] then ''.'' else out)"
    using pre by (simp add: Clean_def Let_def out_def rooted_def)
qed

text \<open>
  C5, amended: for namespace, name and provider that are plain path elements and for
  every prefix, the module path is the cleaned form of
  \<open>prefix/namespace/name/provider\<close> (without the prefix and its slash when the prefix
  is empty), and it is exactly \<open>prefix/namespace/name/provider\<close> if and only if the
  prefix is empty or is itself in cleaned form and is neither \<open>.\<close> nor \<open>/\<close>.  The
  path is a function of the prefix and the three fields alone, so equal inputs give
  equal paths.
\<close>

theorem modPath_exact_iff_prefix_clean:
  assumes "plainElem (Namespace m)" and "plainElem (Name m)" and "plainElem (Provider m)"
  shows "modPath pre m = Clean (spec_modulePath pre m)
       \<and> ((modPath pre m = spec_modulePath pre m)
            = (pre = [] \<or> Clean pre = pre \<and> pre \<noteq> ''.'' \<and> pre \<noteq> ''/''))"
proof (cases "pre = []")
  case True
  have ne: "Namespace m \<noteq> []" using assms(1) by (simp add: plainElem_def)
  have "Clean (strings_Join [Namespace m, Name m, Provider m] ''/'')
          = strings_Join [Namespace m, Name m, Provider m] ''/''"
    using Clean_plain [of "[Namespace m, Name m, Provider m]"] assms by simp
  then show ?thesis using True ne
    by (cases "Namespace m") (simp_all add: modPath_def spec_modulePath_def Join_def)
next
  case False
  let ?es = "[Namespace m, Name m, Provider m]"
  let ?J = "strings_Join ?es ''/''"
  define rooted where "rooted = IsPathSeparator (hd pre)"
  define out where "out = (if rooted then clean_loop rooted (tl pre) ''/'' 1 else clean_loop rooted pre [] 0)"
  have es: "?es \<noteq> []" "list_all plainElem ?es" using assms by simp_all
  have c1: "Clean (pre @ CHR ''/'' # ?J) = out @ needSep rooted out @ ?J"
    and c2: "Clean pre = (if out = [] then ''.'' else out)"
    using Clean_prefix_plain [OF False es] by (simp_all add: out_def rooted_def)
  have sp: "spec_modulePath pre m = pre @ CHR ''/'' # ?J"
    using False by (simp add: spec_modulePath_def)
  have mp: "modPath pre m = Clean (pre @ CHR ''/'' # ?J)"
    using False by (cases pre) (simp_all add: modPath_def Join_def)
  have first: "modPath pre m = Clean (spec_modulePath pre m)" by (simp add: mp sp)
  have eq: "(modPath pre m = spec_modulePath pre m) = (out @ needSep rooted out = pre @ ''/'')"
  proof -
    have "(modPath pre m = spec_modulePath pre m)
            = (out @ needSep rooted out @ ?J = pre @ CHR ''/'' # ?J)"
      unfolding mp sp c1 ..
    also have "\<dots> = ((out @ needSep rooted out) @ ?J = (pre @ ''/'') @ ?J)" by simp
    also have "\<dots> = (out @ needSep rooted out = pre @ ''/'')" by (simp only: append_same_eq)
    finally show ?thesis .
  qed
  have dot: "pre = ''.'' \<Longrightarrow> out = []"
    by (simp add: out_def rooted_def IsPathSeparator_def)
  have slash: "pre = ''/'' \<Longrightarrow> out = ''/'' \<and> rooted"
    by (simp add: out_def rooted_def IsPathSeparator_def)
  have rt: "rooted \<Longrightarrow> (length pre = 1) = (pre = ''/'')"
    using False by (cases pre) (auto simp: rooted_def IsPathSeparator_def)
  have second: "(modPath pre m = spec_modulePath pre m)
                  = (pre = [] \<or> Clean pre = pre \<and> pre \<noteq> ''.'' \<and> pre \<noteq> ''/'')"
  proof
    assume "modPath pre m = spec_modulePath pre m"
    then have e: "out @ needSep rooted out = pre @ ''/''" using eq by simp
    have ns: "needSep rooted out = ''/''"
    proof (rule ccontr)
      assume "needSep rooted out \<noteq> ''/''"
      then have n: "needSep rooted out = []" and l: "(rooted \<and> length out = 1) \<or> (\<not> rooted \<and> length out = 0)"
        by (auto simp: needSep_def split: if_splits)
      from e n have "out = pre @ ''/''" by simp
      then have "length out = length pre + 1" by simp
      with l False show False by (cases pre) auto
    qed
    with e have o: "out = pre" by simp
    then have "Clean pre = pre" using c2 False by simp
    moreover have "pre \<noteq> ''.''" using dot o by auto
    moreover have "pre \<noteq> ''/''"
    proof
      assume "pre = ''/''"
      then have "out = ''/'' \<and> rooted" by (rule slash)
      then have "needSep rooted out = []" by (simp add: needSep_def)
      with ns show False by simp
    qed
    ultimately show "pre = [] \<or> Clean pre = pre \<and> pre \<noteq> ''.'' \<and> pre \<noteq> ''/''" by simp
  next
    assume "pre = [] \<or> Clean pre = pre \<and> pre \<noteq> ''.'' \<and> pre \<noteq> ''/''"
    then have c: "Clean pre = pre" and nd: "pre \<noteq> ''.''" and nsl: "pre \<noteq> ''/''"
      using False by simp_all
    have o: "out = pre" using c c2 nd by (auto split: if_splits)
    have "needSep rooted out = ''/''"
    proof (cases rooted)
      case True
      then show ?thesis using rt [OF True] nsl o by (simp add: needSep_def)
    next
      case nr: False
      then show ?thesis using o False by (simp add: needSep_def)
    qed
    then have "out @ needSep rooted out = pre @ ''/''" using o by simp
    then show "modPath pre m = spec_modulePath pre m" using eq by simp
  qed
  show ?thesis using first second by simp
qed

theorem modPath_exact_iff_prefix_clean_witness:
  "plainElem ''acme'' \<and> plainElem ''vpc'' \<and> plainElem ''aws''
   \<and> Clean ''modules'' = ''modules'' \<and> Clean ''/modules'' = ''/modules''
   \<and> Clean ''../x'' = ''../x'' \<and> Clean ''modules/'' \<noteq> ''modules/''
   \<and> modPath ''modules'' \<lparr>Namespace = ''acme'', Name = ''vpc'', Provider = ''aws'', Version = []\<rparr>
       = ''modules/acme/vpc/aws''
   \<and> modPath [] \<lparr>Namespace = ''acme'', Name = ''vpc'', Provider = ''aws'', Version = []\<rparr>
       = ''acme/vpc/aws''
   \<and> modPath ''/modules'' \<lparr>Namespace = ''acme'', Name = ''vpc'', Provider = ''aws'', Version = []\<rparr>
       = ''/modules/acme/vpc/aws''
   \<and> modPath ''../x'' \<lparr>Namespace = ''acme'', Name = ''vpc'', Provider = ''aws'', Version = []\<rparr>
       = ''../x/acme/vpc/aws''
   \<and> modPath ''modules/'' \<lparr>Namespace = ''acme'', Name = ''vpc'', Provider = ''aws'', Version = []\<rparr>
       \<noteq> spec_modulePath ''modules/'' \<lparr>Namespace = ''acme'', Name = ''vpc'', Provider = ''aws'', Version = []\<rparr>"
proof -
  let ?m = "\<lparr>Namespace = ''acme'', Name = ''vpc'', Provider = ''aws'', Version = []\<rparr>"
  have e: "plainElem (Namespace ?m)" "plainElem (Name ?m)" "plainElem (Provider ?m)"
    by (simp_all add: plainElem_def)
  have c: "Clean ''modules'' = ''modules''" "Clean ''/modules'' = ''/modules''"
    "Clean ''../x'' = ''../x''" "Clean ''modules/'' \<noteq> ''modules/''"
    by code_simp+
  note t = modPath_exact_iff_prefix_clean [OF e, THEN conjunct2]
  have 1: "modPath ''modules'' ?m = ''modules/acme/vpc/aws''"
    using t [of "''modules''"] c(1) by (simp add: spec_modulePath_def)
  have 2: "modPath [] ?m = ''acme/vpc/aws''"
    using t [of "[]"] by (simp add: spec_modulePath_def)
  have 3: "modPath ''/modules'' ?m = ''/modules/acme/vpc/aws''"
    using t [of "''/modules''"] c(2) by (simp add: spec_modulePath_def)
  have 4: "modPath ''../x'' ?m = ''../x/acme/vpc/aws''"
    using t [of "''../x''"] c(3) by (simp add: spec_modulePath_def)
  have 5: "modPath ''modules/'' ?m \<noteq> spec_modulePath ''modules/'' ?m"
    using t [of "''modules/''"] c(4) by simp
  show ?thesis using 1 2 3 4 5 c e by simp
qed

text \<open>
  C9: an identity field that holds traversal elements takes the module path out of the
  subtree of the configured prefix.  With the prefix \<open>modules\<close>, the namespace
  \<open>../other\<close> resolves to \<open>other/vpc/aws\<close>; each of the three fields can do it, the
  provider \<open>../../..\<close> reaches the root of the bucket, and a version does the same to
  the download redirect.  No field is checked or rejected: the versions endpoint,
  asked for the namespace \<open>..\<close>, returns the listing of \<open>vpc/aws\<close>, which lies beside
  \<open>modules\<close>.
\<close>

theorem modPath_escapes_prefix:
  "modPath ''modules'' \<lparr>Namespace = ''../other'', Name = ''vpc'', Provider = ''aws'', Version = []\<rparr>
     = ''other/vpc/aws''
   \<and> \<not> withinSubtree ''modules'' ''other/vpc/aws''
   \<and> modPath ''modules'' \<lparr>Namespace = ''..'', Name = ''vpc'', Provider = ''aws'', Version = []\<rparr>
     = ''vpc/aws''
   \<and> modPath ''modules'' \<lparr>Namespace = ''acme'', Name = ''../..'', Provider = ''aws'', Version = []\<rparr>
     = ''aws''
   \<and> modPath ''modules'' \<lparr>Namespace = ''acme'', Name = ''vpc'', Provider = ''../../..'', Version = []\<rparr>
     = ''.''
   \<and> tfGetHeader \<lparr>Namespace = ''acme'', Name = ''vpc'', Provider = ''aws'', Version = ''../../../..''\<rparr>
     = ''/vpc.tgz''
   \<and> body (ServeHTTP (config ''modules'' prefixedFS)
              (NewRequest ''GET'' ''/terraform/modules/v1/../vpc/aws/versions''))
     = [JsonDoc (JObject [(''modules'', JArray [JObject [(''versions'',
          JArray [JObject [(''version'', JString ''9.9.9'')]])]])])]"
  by code_simp

section \<open>Routing (C7)\<close>

lemma ServeHTTP_handler:
  "dispatch r = Routed (Handler h kv) \<Longrightarrow>
   ServeHTTP g r = finishRequest (callHandler h g (r\<lparr>URLParams := kv\<rparr>) (newResponseWriter r))"
  by (simp add: ServeHTTP_def)

lemma matchingRoutes_GET:
  assumes "(m, h, kv) \<in> set (matchingRoutes path)"
  shows "m = ''GET''"
  using assms
  by (auto simp: matchingRoutes_def routes_def List.map_filter_simps split: option.splits)

lemma find_other_method:
  assumes "method \<noteq> ''GET''"
  shows "List.find (\<lambda>(m, h, kv). m = method) (matchingRoutes path) = None"
  using assms matchingRoutes_GET [of _ _ _ path]
  by (auto simp: find_None_iff)

lemma FindRoute_other_method:
  assumes "method \<noteq> ''GET''"
  shows "\<not> isHandler (FindRoute method path)"
  using find_other_method [OF assms] by (simp add: FindRoute_def)

lemma GetHead_HEAD: "Method r = ''HEAD'' \<Longrightarrow> GetHead r = ''GET''"
  using FindRoute_other_method [of "''HEAD''" "URL_Path r"]
  by (simp add: GetHead_def Match_def)

lemma GetHead_other: "Method r \<noteq> ''HEAD'' \<Longrightarrow> GetHead r = Method r"
  by (simp add: GetHead_def)

lemma routeHTTP_other_method:
  assumes "method \<noteq> ''GET''"
  shows "\<not> isHandler (routeHTTP method path)"
  using FindRoute_other_method [OF assms] by (simp add: routeHTTP_def Let_def)

text \<open>The five patterns match pairwise different paths, and none matches the liveness path.\<close>

lemma matchSegments_Nil: "matchSegments [] xs = Some kv \<Longrightarrow> xs = []"
  by (cases xs) simp_all

lemma matchSegments_Static:
  "matchSegments (Static s # ps) xs = Some kv \<Longrightarrow> \<exists>ys. xs = s # ys \<and> matchSegments ps ys = Some kv"
  by (cases xs) (simp_all split: if_splits)

lemma matchSegments_Param:
  "matchSegments (Param k # ps) xs = Some kv \<Longrightarrow>
     \<exists>y ys kv'. xs = y # ys \<and> matchSegments ps ys = Some kv'"
  by (cases xs) (simp_all split: if_splits option.splits)

lemma matchSegments_CatchAll:
  "matchSegments [CatchAll] xs = Some kv \<Longrightarrow> \<exists>y ys. xs = y # ys"
  by (cases xs) simp_all

lemma pattern_segments:
  "map patSegment (Split ''/'' CHR ''/'') = [Static [], Static []]"
  "map patSegment (Split ''/.well-known/terraform.json'' CHR ''/'')
     = [Static [], Static ''.well-known'', Static ''terraform.json'']"
  "map patSegment (Split (ModuleBasePath @ ''/{namespace}/{name}/{provider}/versions'') CHR ''/'')
     = [Static [], Static ''terraform'', Static ''modules'', Static ''v1'', Param ''namespace'',
        Param ''name'', Param ''provider'', Static ''versions'']"
  "map patSegment (Split (ModuleBasePath @ ''/{namespace}/{name}/{provider}/{version}/download'') CHR ''/'')
     = [Static [], Static ''terraform'', Static ''modules'', Static ''v1'', Param ''namespace'',
        Param ''name'', Param ''provider'', Param ''version'', Static ''download'']"
  "map patSegment (Split ''/download/*'' CHR ''/'') = [Static [], Static ''download'', CatchAll]"
  by code_simp+

lemma route_shapes:
  "matchPattern ''/'' p = Some kv \<Longrightarrow> Split p CHR ''/'' = [[], []]"
  "matchPattern ''/.well-known/terraform.json'' p = Some kv \<Longrightarrow>
     Split p CHR ''/'' = [[], ''.well-known'', ''terraform.json'']"
  "matchPattern (ModuleBasePath @ ''/{namespace}/{name}/{provider}/versions'') p = Some kv \<Longrightarrow>
     \<exists>a b c. Split p CHR ''/'' = [[], ''terraform'', ''modules'', ''v1'', a, b, c, ''versions'']"
  "matchPattern (ModuleBasePath @ ''/{namespace}/{name}/{provider}/{version}/download'') p = Some kv \<Longrightarrow>
     \<exists>a b c d. Split p CHR ''/'' = [[], ''terraform'', ''modules'', ''v1'', a, b, c, d, ''download'']"
  "matchPattern ''/download/*'' p = Some kv \<Longrightarrow>
     \<exists>y ys. Split p CHR ''/'' = [] # ''download'' # y # ys"
proof -
  let ?xs = "Split p CHR ''/''"
  show "matchPattern ''/'' p = Some kv \<Longrightarrow> ?xs = [[], []]"
    unfolding matchPattern_def pattern_segments
    by (auto dest!: matchSegments_Static matchSegments_Nil)
  show "matchPattern ''/.well-known/terraform.json'' p = Some kv \<Longrightarrow>
     ?xs = [[], ''.well-known'', ''terraform.json'']"
    unfolding matchPattern_def pattern_segments
    by (auto dest!: matchSegments_Static matchSegments_Nil)
  show "matchPattern (ModuleBasePath @ ''/{namespace}/{name}/{provider}/versions'') p = Some kv \<Longrightarrow>
     \<exists>a b c. ?xs = [[], ''terraform'', ''modules'', ''v1'', a, b, c, ''versions'']"
    unfolding matchPattern_def pattern_segments
    by (auto dest!: matchSegments_Static matchSegments_Param matchSegments_Nil)
  show "matchPattern (ModuleBasePath @ ''/{namespace}/{name}/{provider}/{version}/download'') p = Some kv \<Longrightarrow>
     \<exists>a b c d. ?xs = [[], ''terraform'', ''modules'', ''v1'', a, b, c, d, ''download'']"
    unfolding matchPattern_def pattern_segments
    by (auto dest!: matchSegments_Static matchSegments_Param matchSegments_Nil)
  show "matchPattern ''/download/*'' p = Some kv \<Longrightarrow>
     \<exists>y ys. ?xs = [] # ''download'' # y # ys"
    unfolding matchPattern_def pattern_segments
    by (auto dest!: matchSegments_Static matchSegments_CatchAll)
qed

lemma routes_disjoint_12:
  assumes "matchPattern ''/'' p = Some kv" and "matchPattern ''/.well-known/terraform.json'' p = Some kv'"
  shows False
  using route_shapes(1) [OF assms(1)] route_shapes(2) [OF assms(2)] by auto

lemma routes_disjoint_13:
  assumes "matchPattern ''/'' p = Some kv" and "matchPattern (ModuleBasePath @ ''/{namespace}/{name}/{provider}/versions'') p = Some kv'"
  shows False
  using route_shapes(1) [OF assms(1)] route_shapes(3) [OF assms(2)] by auto

lemma routes_disjoint_14:
  assumes "matchPattern ''/'' p = Some kv" and "matchPattern (ModuleBasePath @ ''/{namespace}/{name}/{provider}/{version}/download'') p = Some kv'"
  shows False
  using route_shapes(1) [OF assms(1)] route_shapes(4) [OF assms(2)] by auto

lemma routes_disjoint_15:
  assumes "matchPattern ''/'' p = Some kv" and "matchPattern ''/download/*'' p = Some kv'"
  shows False
  using route_shapes(1) [OF assms(1)] route_shapes(5) [OF assms(2)] by auto

lemma routes_disjoint_23:
  assumes "matchPattern ''/.well-known/terraform.json'' p = Some kv" and "matchPattern (ModuleBasePath @ ''/{namespace}/{name}/{provider}/versions'') p = Some kv'"
  shows False
  using route_shapes(2) [OF assms(1)] route_shapes(3) [OF assms(2)] by auto

lemma routes_disjoint_24:
  assumes "matchPattern ''/.well-known/terraform.json'' p = Some kv" and "matchPattern (ModuleBasePath @ ''/{namespace}/{name}/{provider}/{version}/download'') p = Some kv'"
  shows False
  using route_shapes(2) [OF assms(1)] route_shapes(4) [OF assms(2)] by auto

lemma routes_disjoint_25:
  assumes "matchPattern ''/.well-known/terraform.json'' p = Some kv" and "matchPattern ''/download/*'' p = Some kv'"
  shows False
  using route_shapes(2) [OF assms(1)] route_shapes(5) [OF assms(2)] by auto

lemma routes_disjoint_34:
  assumes "matchPattern (ModuleBasePath @ ''/{namespace}/{name}/{provider}/versions'') p = Some kv" and "matchPattern (ModuleBasePath @ ''/{namespace}/{name}/{provider}/{version}/download'') p = Some kv'"
  shows False
  using route_shapes(3) [OF assms(1)] route_shapes(4) [OF assms(2)] by auto

lemma routes_disjoint_35:
  assumes "matchPattern (ModuleBasePath @ ''/{namespace}/{name}/{provider}/versions'') p = Some kv" and "matchPattern ''/download/*'' p = Some kv'"
  shows False
  using route_shapes(3) [OF assms(1)] route_shapes(5) [OF assms(2)] by auto

lemma routes_disjoint_45:
  assumes "matchPattern (ModuleBasePath @ ''/{namespace}/{name}/{provider}/{version}/download'') p = Some kv" and "matchPattern ''/download/*'' p = Some kv'"
  shows False
  using route_shapes(4) [OF assms(1)] route_shapes(5) [OF assms(2)] by auto

lemmas routes_disjoint =
  routes_disjoint_12
  routes_disjoint_13
  routes_disjoint_14
  routes_disjoint_15
  routes_disjoint_23
  routes_disjoint_24
  routes_disjoint_25
  routes_disjoint_34
  routes_disjoint_35
  routes_disjoint_45

lemma matchingRoutes_single:
  assumes "(m, pat, h) \<in> set routes" and "matchPattern pat p = Some kv"
  shows "matchingRoutes p = [(''GET'', h, kv)]"
proof -
  let ?p1 = "''/''" and ?p2 = "''/.well-known/terraform.json''"
    and ?p3 = "ModuleBasePath @ ''/{namespace}/{name}/{provider}/versions''"
    and ?p4 = "ModuleBasePath @ ''/{namespace}/{name}/{provider}/{version}/download''"
    and ?p5 = "''/download/*''"
  have none: "matchPattern a p = None" if "\<And>kv'. matchPattern a p = Some kv' \<Longrightarrow> False" for a
    using that by (cases "matchPattern a p") auto
  from assms(1) consider
      "pat = ?p1 \<and> h = HttpGetServiceDiscovery" | "pat = ?p2 \<and> h = HttpGetServiceDiscovery"
    | "pat = ?p3 \<and> h = HttpGetVersions" | "pat = ?p4 \<and> h = HttpGetDownloadURL"
    | "pat = ?p5 \<and> h = HttpGetModule"
    unfolding routes_def by auto
  then show ?thesis
  proof cases
    case 1
    then have a: "matchPattern ?p1 p = Some kv" using assms(2) by simp
    have "matchPattern ?p2 p = None" "matchPattern ?p3 p = None" "matchPattern ?p4 p = None"
      "matchPattern ?p5 p = None"
      using routes_disjoint(1-4) [OF a] by (auto intro: none)
    then show ?thesis using a 1
      by (simp add: matchingRoutes_def routes_def List.map_filter_simps)
  next
    case 2
    then have a: "matchPattern ?p2 p = Some kv" using assms(2) by simp
    have "matchPattern ?p1 p = None" "matchPattern ?p3 p = None" "matchPattern ?p4 p = None"
      "matchPattern ?p5 p = None"
      using routes_disjoint(1) [OF _ a] routes_disjoint(5-7) [OF a] by (auto intro: none)
    then show ?thesis using a 2
      by (simp add: matchingRoutes_def routes_def List.map_filter_simps)
  next
    case 3
    then have a: "matchPattern ?p3 p = Some kv" using assms(2) by simp
    have "matchPattern ?p1 p = None" "matchPattern ?p2 p = None" "matchPattern ?p4 p = None"
      "matchPattern ?p5 p = None"
      using routes_disjoint(2) [OF _ a] routes_disjoint(5) [OF _ a] routes_disjoint(8-9) [OF a]
      by (auto intro: none)
    then show ?thesis using a 3
      by (simp add: matchingRoutes_def routes_def List.map_filter_simps)
  next
    case 4
    then have a: "matchPattern ?p4 p = Some kv" using assms(2) by simp
    have "matchPattern ?p1 p = None" "matchPattern ?p2 p = None" "matchPattern ?p3 p = None"
      "matchPattern ?p5 p = None"
      using routes_disjoint(3) [OF _ a] routes_disjoint(6) [OF _ a] routes_disjoint(8) [OF _ a]
        routes_disjoint(10) [OF a]
      by (auto intro: none)
    then show ?thesis using a 4
      by (simp add: matchingRoutes_def routes_def List.map_filter_simps)
  next
    case 5
    then have a: "matchPattern ?p5 p = Some kv" using assms(2) by simp
    have "matchPattern ?p1 p = None" "matchPattern ?p2 p = None" "matchPattern ?p3 p = None"
      "matchPattern ?p4 p = None"
      using routes_disjoint(4) [OF _ a] routes_disjoint(7) [OF _ a] routes_disjoint(9) [OF _ a]
        routes_disjoint(10) [OF _ a]
      by (auto intro: none)
    then show ?thesis using a 5
      by (simp add: matchingRoutes_def routes_def List.map_filter_simps)
  qed
qed

lemma matchingRoutes_empty:
  assumes "\<And>m pat h. (m, pat, h) \<in> set routes \<Longrightarrow> matchPattern pat p = None"
  shows "matchingRoutes p = []"
  using assms by (simp add: matchingRoutes_def routes_def List.map_filter_simps)

lemma foldCase_head:
  assumes "foldCase (c # cs) = d # ds" and "c = CHR ''/'' \<or> c = CHR ''.'' \<or> c = CHR ''t'' \<or> c = CHR ''d''"
  shows "d = c" and "foldCase cs = ds"
  using assms by auto

lemma foldCase_slash:
  assumes "foldCase p = CHR ''/'' # ds"
  shows "\<exists>cs. p = CHR ''/'' # cs \<and> foldCase cs = ds"
proof (cases p)
  case Nil
  with assms show ?thesis by simp
next
  case (Cons c cs)
  have up: "65 \<le> (of_char c :: nat) \<and> (of_char c :: nat) \<le> 90 \<Longrightarrow>
              char_of (of_char c + (32 :: nat)) \<noteq> CHR ''/''"
  proof
    assume r: "65 \<le> (of_char c :: nat) \<and> (of_char c :: nat) \<le> 90"
      and e: "char_of (of_char c + (32 :: nat)) = CHR ''/''"
    have "(of_char (char_of (of_char c + (32 :: nat))) :: nat) = (of_char c + 32) mod 256"
      by (simp add: of_char_of)
    then have "(of_char c + 32 :: nat) mod 256 = 47" using e by simp
    with r show False by auto
  qed
  from assms Cons up show ?thesis by (auto split: if_splits)
qed

lemma heartbeat_matches_no_route:
  assumes "EqualFold p ''/is_alive''"
  shows "matchingRoutes p = []"
proof -
  have f: "foldCase p = ''/is_alive''" using assms by (simp add: EqualFold_def)
  then obtain cs where p: "p = CHR ''/'' # cs" and fc: "foldCase cs = ''is_alive''"
    using foldCase_slash [of p "''is_alive''"] by auto
  obtain c cs' where cs: "cs = c # cs'" using fc by (cases cs) auto
  have c: "c \<noteq> CHR ''/''" "c \<noteq> CHR ''.''" "c \<noteq> CHR ''t''" "c \<noteq> CHR ''d''"
    using foldCase_head(1) [of c cs' "CHR ''i''" "''s_alive''"] fc cs by auto
  obtain e es where sp: "Split cs CHR ''/'' = (c # e) # es"
    using c(1) cs Split_nonempty [of cs' "CHR ''/''"] by (cases "Split cs' CHR ''/''") auto
  have xs: "Split p CHR ''/'' = [] # (c # e) # es" using p sp by simp
  have "matchPattern pat p = None" if "(m, pat, h) \<in> set routes" for m pat h
  proof (cases "matchPattern pat p")
    case None
    then show ?thesis .
  next
    case (Some kv)
    from that consider "pat = ''/''" | "pat = ''/.well-known/terraform.json''"
      | "pat = ModuleBasePath @ ''/{namespace}/{name}/{provider}/versions''"
      | "pat = ModuleBasePath @ ''/{namespace}/{name}/{provider}/{version}/download''"
      | "pat = ''/download/*''"
      unfolding routes_def by auto
    then have False
    proof cases
      case 1
      then show ?thesis using route_shapes(1) [of p kv] Some xs by simp
    next
      case 2
      then show ?thesis using route_shapes(2) [of p kv] Some xs c by simp
    next
      case 3
      then show ?thesis using route_shapes(3) [of p kv] Some xs c by auto
    next
      case 4
      then show ?thesis using route_shapes(4) [of p kv] Some xs c by auto
    next
      case 5
      then show ?thesis using route_shapes(5) [of p kv] Some xs c by auto
    qed
    then show ?thesis ..
  qed
  then show ?thesis by (rule matchingRoutes_empty)
qed

text \<open>
  C7, as stated: a request whose method is not GET reaches none of the registered
  handlers, and a request for an unmatched path gets the generic not-found response.
  The router is set up with \<open>middleware.GetHead\<close>, which routes a HEAD request to the
  GET route of its path: \<open>HEAD /\<close> reaches the discovery handler.  A request whose
  method chi does not know gets 405 whatever its path, and \<open>GET /is_alive\<close>, which
  matches no route, is answered 200 by the liveness middleware.
\<close>

theorem HEAD_reaches_handler_counterexample:
  "Method (NewRequest ''HEAD'' ''/'') \<noteq> ''GET''
   \<and> dispatch (NewRequest ''HEAD'' ''/'') = Routed (Handler HttpGetServiceDiscovery [])
   \<and> status (ServeHTTP (config [] emptyFS) (NewRequest ''HEAD'' ''/'')) = Some 200
   \<and> matchingRoutes ''/nope'' = []
   \<and> status (ServeHTTP (config [] emptyFS) (NewRequest ''FOO'' ''/nope'')) = Some 405
   \<and> matchingRoutes ''/is_alive'' = []
   \<and> status (ServeHTTP (config [] emptyFS) (NewRequest ''GET'' ''/is_alive'')) = Some 200"
  by code_simp

text \<open>
  C7, amended, for every request:
  \<^item> when its method is neither GET nor HEAD, it reaches none of the registered handlers;
  \<^item> a HEAD request is dispatched as the GET request for the same path;
  \<^item> a GET or HEAD request whose path matches the pattern of one of the five routes
    reaches the handler of that route with the parameters of the match, so GET is
    accepted on every listed path;
  \<^item> when its method is one that chi knows, the liveness middleware does not answer it
    and its path matches no route pattern, it gets the generic response 404 (without a
    body for HEAD).
  An empty path is routed as \<open>/\<close>.
\<close>

theorem methods_routes_and_not_found:
  "(Method r \<noteq> ''GET'' \<and> Method r \<noteq> ''HEAD'' \<longrightarrow>
      (\<forall>h kv. dispatch r \<noteq> Routed (Handler h kv)))
   \<and> (Method r = ''HEAD'' \<longrightarrow> dispatch r = dispatch (r\<lparr>Method := ''GET''\<rparr>))
   \<and> (\<forall>m pat h kv. (Method r = ''GET'' \<or> Method r = ''HEAD'') \<and> (m, pat, h) \<in> set routes
        \<and> matchPattern pat (if URL_Path r = [] then ''/'' else URL_Path r) = Some kv \<longrightarrow>
        dispatch r = Routed (Handler h kv))
   \<and> (Method r \<in> set methodMap \<and> \<not> isHeartbeat r
        \<and> matchingRoutes (if URL_Path r = [] then ''/'' else URL_Path r) = [] \<longrightarrow>
        dispatch r = Routed NotFound
        \<and> status (ServeHTTP g r) = Some 404
        \<and> body (ServeHTTP g r)
            = (if Method r = ''HEAD'' then [] else [Bytes (''404 page not found'' @ [CHR 0x0A])]))"
proof (intro conjI impI allI)
  fix h kv
  assume a: "Method r \<noteq> ''GET'' \<and> Method r \<noteq> ''HEAD''"
  then have "\<not> isHandler (routeHTTP (GetHead r) (URL_Path r))"
    using routeHTTP_other_method [of "Method r" "URL_Path r"] by (simp add: GetHead_other)
  then show "dispatch r \<noteq> Routed (Handler h kv)"
    using a by (auto simp: dispatch_def isHeartbeat_def)
next
  assume "Method r = ''HEAD''"
  then show "dispatch r = dispatch (r\<lparr>Method := ''GET''\<rparr>)"
    by (simp add: dispatch_def isHeartbeat_def GetHead_HEAD GetHead_other)
next
  fix m pat h kv
  let ?p = "if URL_Path r = [] then ''/'' else URL_Path r"
  assume a: "(Method r = ''GET'' \<or> Method r = ''HEAD'') \<and> (m, pat, h) \<in> set routes
        \<and> matchPattern pat ?p = Some kv"
  then have gh: "GetHead r = ''GET''" using GetHead_HEAD [of r] GetHead_other [of r] by auto
  have mr: "matchingRoutes ?p = [(''GET'', h, kv)]"
    using matchingRoutes_single [of m pat h ?p kv] a by simp
  have nh: "\<not> isHeartbeat r"
  proof
    assume hb: "isHeartbeat r"
    then have e: "EqualFold (URL_Path r) ''/is_alive''" by (simp add: isHeartbeat_def)
    then have "URL_Path r \<noteq> []" by (auto simp: EqualFold_def)
    then have "matchingRoutes ?p = []" using heartbeat_matches_no_route [OF e] by simp
    with mr show False by simp
  qed
  have "routeHTTP ''GET'' (URL_Path r) = Handler h kv"
    unfolding routeHTTP_def Let_def FindRoute_def mr by (simp add: methodMap_def)
  then show "dispatch r = Routed (Handler h kv)"
    using nh gh by (simp add: dispatch_def)
next
  let ?p = "if URL_Path r = [] then ''/'' else URL_Path r"
  assume a: "Method r \<in> set methodMap \<and> \<not> isHeartbeat r \<and> matchingRoutes ?p = []"
  have gm: "GetHead r \<in> set methodMap"
    using a GetHead_HEAD [of r] GetHead_other [of r] by (cases "Method r = ''HEAD''") (auto simp: methodMap_def)
  have "routeHTTP (GetHead r) (URL_Path r) = NotFound"
    unfolding routeHTTP_def Let_def FindRoute_def using a gm by simp
  then have d: "dispatch r = Routed NotFound" using a by (simp add: dispatch_def)
  show "dispatch r = Routed NotFound" by (rule d)
  show "status (ServeHTTP g r) = Some 404"
    by (simp add: ServeHTTP_def d http_NotFound_def http_Error_def finishRequest_def
        newResponseWriter_def Write_def WriteHeader_def Header_Set_def bodyAllowedForStatus_def Let_def)
  show "body (ServeHTTP g r)
            = (if Method r = ''HEAD'' then [] else [Bytes (''404 page not found'' @ [CHR 0x0A])])"
    by (simp add: ServeHTTP_def d http_NotFound_def http_Error_def finishRequest_def
        newResponseWriter_def Write_def WriteHeader_def Header_Set_def bodyAllowedForStatus_def Let_def)
qed

theorem methods_routes_and_not_found_witness:
  "Method (NewRequest ''POST'' ''/'') \<noteq> ''GET'' \<and> Method (NewRequest ''POST'' ''/'') \<noteq> ''HEAD''
   \<and> (\<forall>h kv. dispatch (NewRequest ''POST'' ''/'') \<noteq> Routed (Handler h kv))
   \<and> dispatch (NewRequest ''HEAD'' ''/'') = dispatch (NewRequest ''GET'' ''/'')
   \<and> (''GET'', ModuleBasePath @ ''/{namespace}/{name}/{provider}/versions'', HttpGetVersions) \<in> set routes
   \<and> dispatch (NewRequest ''GET'' ''/terraform/modules/v1/acme/vpc/aws/versions'')
       = Routed (Handler HttpGetVersions
           [(''namespace'', ''acme''), (''name'', ''vpc''), (''provider'', ''aws'')])
   \<and> ''POST'' \<in> set methodMap \<and> matchingRoutes ''/nope'' = []
   \<and> dispatch (NewRequest ''POST'' ''/nope'') = Routed NotFound
   \<and> status (ServeHTTP (config [] emptyFS) (NewRequest ''POST'' ''/nope'')) = Some 404"
proof -
  let ?v = "''/terraform/modules/v1/acme/vpc/aws/versions''"
  let ?pat = "ModuleBasePath @ ''/{namespace}/{name}/{provider}/versions''"
  let ?kv = "[(''namespace'', ''acme''), (''name'', ''vpc''), (''provider'', ''aws'')]"
  have a: "Method (NewRequest ''POST'' ''/'') \<noteq> ''GET'' \<and> Method (NewRequest ''POST'' ''/'') \<noteq> ''HEAD''"
    by (simp add: NewRequest_def)
  have b: "Method (NewRequest ''HEAD'' ''/'') = ''HEAD''"
    by (simp add: NewRequest_def)
  have b': "(NewRequest ''HEAD'' ''/'')\<lparr>Method := ''GET''\<rparr> = NewRequest ''GET'' ''/''"
    by (simp add: NewRequest_def)
  have r: "(''GET'', ?pat, HttpGetVersions) \<in> set routes" by (simp add: routes_def)
  have mp: "matchPattern ?pat ?v = Some ?kv" by code_simp
  have c: "(Method (NewRequest ''GET'' ?v) = ''GET'' \<or> Method (NewRequest ''GET'' ?v) = ''HEAD'')
      \<and> (''GET'', ?pat, HttpGetVersions) \<in> set routes
      \<and> matchPattern ?pat (if URL_Path (NewRequest ''GET'' ?v) = [] then ''/''
                             else URL_Path (NewRequest ''GET'' ?v)) = Some ?kv"
    using r mp by (simp add: NewRequest_def)
  have m: "matchingRoutes ''/nope'' = []" by code_simp
  have k: "''POST'' \<in> set methodMap" by (simp add: methodMap_def)
  have h: "\<not> isHeartbeat (NewRequest ''POST'' ''/nope'')" by code_simp
  have d: "Method (NewRequest ''POST'' ''/nope'') \<in> set methodMap
      \<and> \<not> isHeartbeat (NewRequest ''POST'' ''/nope'')
      \<and> matchingRoutes (if URL_Path (NewRequest ''POST'' ''/nope'') = [] then ''/''
                          else URL_Path (NewRequest ''POST'' ''/nope'')) = []"
    using m k h by (simp add: NewRequest_def)
  note t = methods_routes_and_not_found
  have 1: "\<forall>h kv. dispatch (NewRequest ''POST'' ''/'') \<noteq> Routed (Handler h kv)"
    using t [of "NewRequest ''POST'' ''/''"] a by blast
  have 2: "dispatch (NewRequest ''HEAD'' ''/'') = dispatch (NewRequest ''GET'' ''/'')"
    using t [of "NewRequest ''HEAD'' ''/''"] b b' by simp
  have 3: "dispatch (NewRequest ''GET'' ?v) = Routed (Handler HttpGetVersions ?kv)"
    using t [of "NewRequest ''GET'' ?v"] c by blast
  have 4: "dispatch (NewRequest ''POST'' ''/nope'') = Routed NotFound
      \<and> status (ServeHTTP (config [] emptyFS) (NewRequest ''POST'' ''/nope'')) = Some 404"
    using t [of "NewRequest ''POST'' ''/nope''" "config [] emptyFS"] d by blast
  show ?thesis using a 1 2 r 3 k m 4 by simp
qed

section \<open>Service discovery (C8)\<close>

lemma dispatch_root:
  "dispatch (NewRequest ''GET'' ''/'') = Routed (Handler HttpGetServiceDiscovery [])"
  by code_simp

lemma dispatch_well_known:
  "dispatch (NewRequest ''GET'' ''/.well-known/terraform.json'')
     = Routed (Handler HttpGetServiceDiscovery [])"
  by code_simp

lemma httpGetServiceDiscovery_response:
  "finishRequest (httpGetServiceDiscovery g r' (newResponseWriter r))
     = \<lparr>header = [''Content-Type'' \<mapsto> ''application/json''], status = Some 200,
        sent = [''Content-Type'' \<mapsto> ''application/json''],
        body = (if Method r = ''HEAD'' then []
                else [JsonDoc (JObject [(''modules.v1'', JString ''/terraform/modules/v1'')])]),
        is_head = (Method r = ''HEAD'')\<rparr>"
  by (simp add: httpGetServiceDiscovery_def finishRequest_def newResponseWriter_def Encode_def
      Write_def WriteHeader_def Header_Set_def json_ServiceDiscoveryResp_def ModuleBasePath_def
      bodyAllowedForStatus_def Let_def)

text \<open>
  C8: \<open>GET /\<close> and \<open>GET /.well-known/terraform.json\<close> give the same response under
  any two configurations: status 200, content type \<open>application/json\<close> and one JSON
  document, the object with the single member \<open>modules.v1\<close> of value
  \<open>/terraform/modules/v1\<close>.
\<close>

theorem discovery_same_for_all_configs:
  "ServeHTTP g1 (NewRequest ''GET'' ''/'') = ServeHTTP g2 (NewRequest ''GET'' ''/.well-known/terraform.json'')
   \<and> ServeHTTP g1 (NewRequest ''GET'' ''/'') = ServeHTTP g2 (NewRequest ''GET'' ''/'')
   \<and> status (ServeHTTP g1 (NewRequest ''GET'' ''/'')) = Some 200
   \<and> sent (ServeHTTP g1 (NewRequest ''GET'' ''/'')) ''Content-Type'' = Some ''application/json''
   \<and> body (ServeHTTP g1 (NewRequest ''GET'' ''/''))
       = [JsonDoc (JObject [(''modules.v1'', JString ''/terraform/modules/v1'')])]"
  unfolding ServeHTTP_handler [OF dispatch_root] ServeHTTP_handler [OF dispatch_well_known]
    callHandler.simps httpGetServiceDiscovery_response
  by (simp add: NewRequest_def)

section \<open>The download redirect (C4)\<close>

lemma dispatch_download_acme:
  "dispatch (NewRequest ''GET'' ''/terraform/modules/v1/acme/vpc/aws/1.0.0/download'')
     = Routed (Handler HttpGetDownloadURL
         [(''namespace'', ''acme''), (''name'', ''vpc''), (''provider'', ''aws''),
          (''version'', ''1.0.0'')])"
  by code_simp

lemma tfGetHeader_acme:
  "tfGetHeader \<lparr>Namespace = ''acme'', Name = ''vpc'', Provider = ''aws'', Version = ''1.0.0''\<rparr>
     = ''/download/acme/vpc/aws/1.0.0/vpc.tgz''"
  by code_simp

text \<open>
  C4: for the identity \<open>acme/vpc/aws\<close>, version 1.0.0, the download endpoint answers
  with status 204, no body, and \<open>X-Terraform-Get\<close> equal to
  \<open>/download/acme/vpc/aws/1.0.0/vpc.tgz\<close>, under every configuration and storage.  For
  every request the handler answers 204 with the joined path in the header, and its
  result does not depend on the configuration or the storage.
\<close>

theorem download_redirect:
  "status (ServeHTTP g (NewRequest ''GET'' ''/terraform/modules/v1/acme/vpc/aws/1.0.0/download''))
     = Some 204
   \<and> sent (ServeHTTP g (NewRequest ''GET'' ''/terraform/modules/v1/acme/vpc/aws/1.0.0/download''))
       ''X-Terraform-Get'' = Some ''/download/acme/vpc/aws/1.0.0/vpc.tgz''
   \<and> body (ServeHTTP g (NewRequest ''GET'' ''/terraform/modules/v1/acme/vpc/aws/1.0.0/download''))
       = []
   \<and> httpGetDownloadURL g r w = httpGetDownloadURL g' r w
   \<and> status (finishRequest (httpGetDownloadURL g r (newResponseWriter r))) = Some 204
   \<and> body (finishRequest (httpGetDownloadURL g r (newResponseWriter r))) = []
   \<and> sent (finishRequest (httpGetDownloadURL g r (newResponseWriter r))) ''X-Terraform-Get''
       = Some (tfGetHeader \<lparr>Namespace = URLParam r ''namespace'', Name = URLParam r ''name'',
                 Provider = URLParam r ''provider'', Version = URLParam r ''version''\<rparr>)"
  by (simp add: ServeHTTP_handler [OF dispatch_download_acme] httpGetDownloadURL_def
      finishRequest_def newResponseWriter_def WriteHeader_def Header_Set_def URLParam_def
      tfGetHeader_acme Let_def)

section \<open>Listing versions (C2, C3, C10)\<close>

lemma foldl_appendVersion:
  "foldl appendVersion \<lparr>Versions = s\<rparr> dirs
     = \<lparr>Versions = (if dirs = [] then s
                     else Some (elems s @ map (\<lambda>v. [(''version'', EntryName v)]) dirs))\<rparr>"
proof (induction dirs arbitrary: s)
  case Nil
  then show ?case by simp
next
  case (Cons d ds)
  show ?case
    using Cons.IH [of "append_slice s [(''version'', EntryName d)]"]
    by (simp add: appendVersion_def append_slice_def elems_def)
qed

lemma getModuleVersions_ok:
  assumes "ReadDir (s3fsys g) p = Inr dirs"
  shows "getModuleVersions g p
           = (\<lparr>Modules = Some [\<lparr>Versions = (if dirs = [] then None
                else Some (map (\<lambda>v. [(''version'', EntryName v)]) dirs))\<rparr>]\<rparr>, None)"
  using assms by (simp add: getModuleVersions_def foldl_appendVersion elems_def)

lemma getModuleVersions_err:
  assumes "ReadDir (s3fsys g) p = Inl e"
  shows "getModuleVersions g p = (\<lparr>Modules = None\<rparr>, Some e)"
  using assms by (simp add: getModuleVersions_def)

lemma httpGetVersions_ok:
  assumes "ReadDir (s3fsys g)
             (modPath (prefix g) \<lparr>Namespace = URLParam r ''namespace'', Name = URLParam r ''name'',
                 Provider = URLParam r ''provider'', Version = []\<rparr>) = Inr dirs"
    and "Method r' = ''GET''"
  shows "finishRequest (httpGetVersions g r (newResponseWriter r'))
     = \<lparr>header = [''Content-Type'' \<mapsto> ''application/json''], status = Some 200,
        sent = [''Content-Type'' \<mapsto> ''application/json''],
        body = [JsonDoc (JObject [(''modules'', JArray [JObject [(''versions'',
                  (if dirs = [] then JNull
                   else JArray (map (\<lambda>v. JObject [(''version'', JString (EntryName v))]) dirs)))]])])],
        is_head = False\<rparr>"
  using getModuleVersions_ok [OF assms(1)] assms(2)
  by (simp add: httpGetVersions_def finishRequest_def newResponseWriter_def Encode_def
      Write_def WriteHeader_def Header_Set_def json_ModuleVersionsResp_def json_ModuleVersions_def
      json_slice_def json_map_def bodyAllowedForStatus_def Let_def comp_def)

lemma httpGetVersions_err:
  assumes "ReadDir (s3fsys g)
             (modPath (prefix g) \<lparr>Namespace = URLParam r ''namespace'', Name = URLParam r ''name'',
                 Provider = URLParam r ''provider'', Version = []\<rparr>) = Inl e"
    and "Method r' = ''GET''"
  shows "finishRequest (httpGetVersions g r (newResponseWriter r'))
     = \<lparr>header = [''Content-Type'' \<mapsto> ''application/json'', ''X-Content-Type-Options'' \<mapsto> ''nosniff''],
        status = Some 500,
        sent = [''Content-Type'' \<mapsto> ''text/plain; charset=utf-8'', ''X-Content-Type-Options'' \<mapsto> ''nosniff''],
        body = [Bytes (Error e @ [CHR 0x0A]), JsonDoc (JObject [(''modules'', JNull)])],
        is_head = False\<rparr>"
  using getModuleVersions_err [OF assms(1)] assms(2)
  by (simp add: httpGetVersions_def finishRequest_def newResponseWriter_def Encode_def http_Error_def
      Write_def WriteHeader_def Header_Set_def json_ModuleVersionsResp_def json_ModuleVersions_def
      json_slice_def json_map_def bodyAllowedForStatus_def Let_def fun_upd_twist)

lemma count_list_distinct:
  assumes "distinct xs" and "x \<in> set xs"
  shows "count_list xs x = 1"
  using assms by (induction xs) (auto simp: count_list_0_iff)

text \<open>
  C2: when the listing of the module path returns the entries 1.0.0, 1.1.0 and 2.0.0,
  each once, in whatever order, \<open>getModuleVersions\<close> succeeds with one module entry
  whose versions are exactly these entries, each once, in the order of the listing,
  each as a map with the single key \<open>version\<close>; the versions endpoint answers 200 with
  the JSON document \<open>{"modules": [{"versions": [{"version": id}, ...]}]}\<close> in that order.
\<close>

theorem listVersions_three:
  assumes rd: "ReadDir (s3fsys g)
             (modPath (prefix g) \<lparr>Namespace = URLParam r ''namespace'', Name = URLParam r ''name'',
                 Provider = URLParam r ''provider'', Version = []\<rparr>) = Inr dirs"
    and st: "set (map EntryName dirs) = {''1.0.0'', ''1.1.0'', ''2.0.0''}"
    and di: "distinct (map EntryName dirs)"
    and me: "Method r = ''GET''"
  shows "getModuleVersions g
           (modPath (prefix g) \<lparr>Namespace = URLParam r ''namespace'', Name = URLParam r ''name'',
                 Provider = URLParam r ''provider'', Version = []\<rparr>)
           = (\<lparr>Modules = Some [\<lparr>Versions =
                 Some (map (\<lambda>v. [(''version'', EntryName v)]) dirs)\<rparr>]\<rparr>, None)
         \<and> length dirs = 3
         \<and> count_list (map EntryName dirs) ''1.0.0'' = 1
         \<and> count_list (map EntryName dirs) ''1.1.0'' = 1
         \<and> count_list (map EntryName dirs) ''2.0.0'' = 1
         \<and> status (finishRequest (httpGetVersions g r (newResponseWriter r))) = Some 200
         \<and> body (finishRequest (httpGetVersions g r (newResponseWriter r)))
             = [JsonDoc (JObject [(''modules'', JArray [JObject [(''versions'',
                  JArray (map (\<lambda>v. JObject [(''version'', JString (EntryName v))]) dirs))]])])]"
proof -
  have "card (set (map EntryName dirs)) = 3" unfolding st by simp
  then have len: "length dirs = 3" using distinct_card [OF di] by simp
  then have ne: "dirs \<noteq> []" by auto
  have c: "count_list (map EntryName dirs) ''1.0.0'' = 1"
    "count_list (map EntryName dirs) ''1.1.0'' = 1"
    "count_list (map EntryName dirs) ''2.0.0'' = 1"
    using count_list_distinct [OF di] st by simp_all
  show ?thesis
    using getModuleVersions_ok [OF rd] httpGetVersions_ok [OF rd me] len ne c by simp
qed

theorem listVersions_three_witness:
  "set (map EntryName [\<lparr>EntryName = ''2.0.0'', EntryIsDir = True\<rparr>,
                  \<lparr>EntryName = ''1.1.0'', EntryIsDir = True\<rparr>,
                  \<lparr>EntryName = ''1.0.0'', EntryIsDir = True\<rparr>]) = {''1.0.0'', ''1.1.0'', ''2.0.0''}
   \<and> body (ServeHTTP (config [] rootFS) (NewRequest ''GET'' ''/terraform/modules/v1/acme/vpc/aws/versions''))
       = [JsonDoc (JObject [(''modules'', JArray [JObject [(''versions'',
            JArray [JObject [(''version'', JString ''2.0.0'')],
                    JObject [(''version'', JString ''1.1.0'')],
                    JObject [(''version'', JString ''1.0.0'')]])]])])]"
proof -
  let ?r = "(NewRequest ''GET'' ''/terraform/modules/v1/acme/vpc/aws/versions'')
             \<lparr>URLParams := [(''namespace'', ''acme''), (''name'', ''vpc''), (''provider'', ''aws'')]\<rparr>"
  let ?dirs = "[\<lparr>EntryName = ''2.0.0'', EntryIsDir = True\<rparr>,
                  \<lparr>EntryName = ''1.1.0'', EntryIsDir = True\<rparr>,
                  \<lparr>EntryName = ''1.0.0'', EntryIsDir = True\<rparr>]"
  have d: "dispatch (NewRequest ''GET'' ''/terraform/modules/v1/acme/vpc/aws/versions'')
      = Routed (Handler HttpGetVersions [(''namespace'', ''acme''), (''name'', ''vpc''), (''provider'', ''aws'')])"
    by code_simp
  have mp: "modPath (prefix (config [] rootFS)) \<lparr>Namespace = URLParam ?r ''namespace'', Name = URLParam ?r ''name'',
                 Provider = URLParam ?r ''provider'', Version = []\<rparr> = ''acme/vpc/aws''"
    by code_simp
  have rd: "ReadDir (s3fsys (config [] rootFS))
             (modPath (prefix (config [] rootFS)) \<lparr>Namespace = URLParam ?r ''namespace'', Name = URLParam ?r ''name'',
                 Provider = URLParam ?r ''provider'', Version = []\<rparr>) = Inr ?dirs"
    unfolding mp by (simp add: config_def rootFS_def)
  have st: "set (map EntryName ?dirs) = {''1.0.0'', ''1.1.0'', ''2.0.0''}" by auto
  have di: "distinct (map EntryName ?dirs)" by simp
  have me: "Method ?r = ''GET''" by (simp add: NewRequest_def)
  have s: "ServeHTTP (config [] rootFS) (NewRequest ''GET'' ''/terraform/modules/v1/acme/vpc/aws/versions'')
      = finishRequest (httpGetVersions (config [] rootFS) ?r (newResponseWriter ?r))"
    unfolding ServeHTTP_handler [OF d] by (simp add: NewRequest_def newResponseWriter_def)
  show ?thesis
    using listVersions_three [OF rd st di me] st unfolding s by simp
qed

text \<open>
  C10: when the listing of the module path succeeds with no entry,
  \<open>getModuleVersions\<close> succeeds (its error is \<open>nil\<close>) and returns exactly one module
  entry, whose versions slice has no element.  (The slice is \<open>nil\<close>, which the
  encoder writes as \<open>null\<close>.)
\<close>

theorem listVersions_empty_directory:
  assumes "ReadDir (s3fsys g) p = Inr []"
  shows "getModuleVersions g p = (\<lparr>Modules = Some [\<lparr>Versions = None\<rparr>]\<rparr>, None)
         \<and> snd (getModuleVersions g p) = None
         \<and> map (\<lambda>mv. elems (Versions mv)) (elems (Modules (fst (getModuleVersions g p)))) = [[]]"
  using getModuleVersions_ok [OF assms] by (simp add: elems_def)

theorem listVersions_empty_directory_witness:
  "ReadDir (s3fsys (config [] rootFS)) ''acme/empty/aws'' = Inr []
   \<and> getModuleVersions (config [] rootFS) ''acme/empty/aws''
       = (\<lparr>Modules = Some [\<lparr>Versions = None\<rparr>]\<rparr>, None)"
proof -
  have rd: "ReadDir (s3fsys (config [] rootFS)) ''acme/empty/aws'' = Inr []"
    by (simp add: config_def rootFS_def)
  show ?thesis using listVersions_empty_directory [OF rd] rd by simp
qed

text \<open>
  C3 says that on a listing failure the versions endpoint answers 500 with the error
  message as the whole body.  The program, on an empty bucket: the listing fails with a
  not-exist error and the status is 500, but \<open>httpGetVersions\<close> does not return after
  \<open>http.Error\<close>, so the message (and its newline) is followed by the JSON encoding of
  the zero response, \<open>{"modules": null}\<close>; the body is not text alone.
\<close>

theorem versions_error_body_has_trailing_json:
  "snd (getModuleVersions (config ''modules'' emptyFS) ''modules/acme/vpc/aws'')
     = Some (notExist ''readdir'' ''modules/acme/vpc/aws'')
   \<and> status (ServeHTTP (config ''modules'' emptyFS)
        (NewRequest ''GET'' ''/terraform/modules/v1/acme/vpc/aws/versions'')) = Some 500
   \<and> body (ServeHTTP (config ''modules'' emptyFS)
        (NewRequest ''GET'' ''/terraform/modules/v1/acme/vpc/aws/versions''))
     = [Bytes (''readdir modules/acme/vpc/aws: file does not exist'' @ [CHR 0x0A]),
        JsonDoc (JObject [(''modules'', JNull)])]
   \<and> bodyBytes (body (ServeHTTP (config ''modules'' emptyFS)
        (NewRequest ''GET'' ''/terraform/modules/v1/acme/vpc/aws/versions''))) = None"
  by code_simp

section \<open>Serving module content (C6, C1)\<close>

lemma Split_snoc: "Split (s @ [c]) c = Split s c @ [[]]"
proof (induction s)
  case Nil
  then show ?case by simp
next
  case (Cons x xs)
  then show ?case
    using Split_nonempty [of xs c] by (cases "Split xs c") auto
qed

lemma plainPath_shape:
  assumes "plainPath key"
  shows "key \<noteq> []" and "\<not> HasPrefix key ''/''" and "\<not> endsInSlash (CHR ''/'' # key)"
proof -
  have s: "Split key CHR ''/'' \<noteq> []" "list_all plainElem (Split key CHR ''/'')"
    and j: "strings_Join (Split key CHR ''/'') ''/'' = key"
    using plainPath_Split [OF assms] by simp_all
  show ne: "key \<noteq> []" using strings_Join_nonempty(1) [OF s] j by simp
  have "hd key \<noteq> CHR ''/''" using strings_Join_nonempty(2) [OF s] j by simp
  then show "\<not> HasPrefix key ''/''" using ne by (cases key) (auto simp: HasPrefix_def)
  show "\<not> endsInSlash (CHR ''/'' # key)"
  proof
    assume "endsInSlash (CHR ''/'' # key)"
    then have "last key = CHR ''/''" using ne
      by (cases key rule: rev_cases) (auto simp: endsInSlash_def)
    then obtain k where "key = k @ ''/''" using ne by (cases key rule: rev_cases) auto
    then have "Split key CHR ''/'' = Split k CHR ''/'' @ [[]]" using Split_snoc [of k "CHR ''/''"] by simp
    then show False using s(2) by (simp add: plainElem_def)
  qed
qed

lemma storageKey_plain:
  assumes "plainPath key"
  shows "requestPath key = CHR ''/'' # key" and "storageKey key = key"
proof -
  note sh = plainPath_shape [OF assms]
  show rp: "requestPath key = CHR ''/'' # key" using sh(2) by (simp add: requestPath_def)
  show "storageKey key = key"
    using sh(1) Clean_rooted_plainPath [OF assms]
    by (simp add: storageKey_def rp ioFS_name_def TrimPrefix_def HasPrefix_def)
qed

lemma dispatch_download:
  assumes m: "Method r = ''GET'' \<or> Method r = ''HEAD''"
    and p: "URL_Path r = ''/download/'' @ rest"
  shows "dispatch r = Routed (Handler HttpGetModule [(''*'', rest)])"
proof -
  define p where "p = ''/download/'' @ rest"
  obtain x xs where sp: "Split rest CHR ''/'' = x # xs"
    using Split_nonempty [of rest "CHR ''/''"] by (cases "Split rest CHR ''/''") auto
  have j: "strings_Join (x # xs) ''/'' = rest" using Join_Split [of rest "CHR ''/''"] sp by simp
  have pne: "p \<noteq> []" by (simp add: p_def)
  have hb: "\<not> EqualFold p ''/is_alive''"
    by (simp add: p_def EqualFold_def)
  have mr: "matchingRoutes p = [(''GET'', HttpGetModule, [(''*'', rest)])]"
    using sp j
    by (simp add: p_def matchingRoutes_def routes_def List.map_filter_simps matchPattern_def
        patSegment_def ModuleBasePath_def)
  have rh: "routeHTTP ''GET'' p = Handler HttpGetModule [(''*'', rest)]"
    using pne by (simp add: routeHTTP_def FindRoute_def mr methodMap_def)
  have up: "URL_Path r = p" using assms(2) by (simp add: p_def)
  have gh: "GetHead r = ''GET''" using m GetHead_HEAD [of r] GetHead_other [of r] by auto
  show ?thesis
    using hb rh by (simp add: dispatch_def isHeartbeat_def gh up)
qed

lemma httpGetModule_serveFile:
  assumes p: "URL_Path r = ''/download/'' @ rest"
  shows "httpGetModule g r w
     = serveFile (Header_Set ''Content-Type'' ''application/x-gzip''
                   (Header_Set ''Content-Encoding'' ''application/octet-stream'' w))
         (r\<lparr>URL_Path := requestPath rest\<rparr>) (s3fsys g) (Clean (requestPath rest)) True"
proof -
  have tp: "TrimPrefix (URL_Path r) ''/download/'' = rest"
    by (simp add: p TrimPrefix_def HasPrefix_def)
  have ln: "length rest < length (URL_Path r)" by (simp add: p)
  have fs: "FileServer (s3fsys g) (r\<lparr>URL_Path := rest\<rparr>) w'
      = serveFile w' (r\<lparr>URL_Path := requestPath rest\<rparr>) (s3fsys g) (Clean (requestPath rest)) True" for w'
    by (simp add: FileServer_def requestPath_def Let_def)
  show ?thesis
    by (simp add: httpGetModule_def StripPrefix_def tp ln fs)
qed

lemma ioFS_Open_file:
  "Open fsys (ioFS_name name) = Inr d \<Longrightarrow> ioFS_Open fsys name = Inr d"
  by (simp add: ioFS_Open_def)

lemma ioFS_Open_notExist:
  "Open fsys (ioFS_name name) = Inl e \<Longrightarrow> err_is e = ErrNotExist \<Longrightarrow> ioFS_Open fsys name = Inl e"
  by (simp add: ioFS_Open_def mapOpenError_def)

lemma checks_path:
  "checkIfRange (r\<lparr>URL_Path := p\<rparr>) modtime = checkIfRange r modtime"
  "checkIfRange (r\<lparr>URLParams := kv\<rparr>) modtime = checkIfRange r modtime"
  "checkIfModifiedSince (r\<lparr>URL_Path := p\<rparr>) modtime = checkIfModifiedSince r modtime"
  "checkIfModifiedSince (r\<lparr>URLParams := kv\<rparr>) modtime = checkIfModifiedSince r modtime"
  "checkIfUnmodifiedSince (r\<lparr>URL_Path := p\<rparr>) modtime = checkIfUnmodifiedSince r modtime"
  "checkIfUnmodifiedSince (r\<lparr>URLParams := kv\<rparr>) modtime = checkIfUnmodifiedSince r modtime"
  by (simp_all add: checkIfRange_def checkIfModifiedSince_def checkIfUnmodifiedSince_def)

lemma rangeHeader_path:
  "rangeHeader (r\<lparr>URL_Path := p\<rparr>) modtime = rangeHeader r modtime"
  "rangeHeader (r\<lparr>URLParams := kv\<rparr>) modtime = rangeHeader r modtime"
  by (simp_all add: rangeHeader_def checks_path cong: option.case_cong)

lemma preconditions_path:
  "preconditions (r\<lparr>URL_Path := p\<rparr>) modtime = preconditions r modtime"
  "preconditions (r\<lparr>URLParams := kv\<rparr>) modtime = preconditions r modtime"
  by (simp_all add: preconditions_def rangeHeader_path checks_path cong: condResult.case_cong if_cong)

lemma preconditions_NewRequest:
  "preconditions (NewRequest method path) modtime = Proceed None"
  "selectRanges None n = Ranges []"
  by (simp_all add: preconditions_def rangeHeader_def checkIfRange_def checkIfModifiedSince_def
      checkIfUnmodifiedSince_def NewRequest_def selectRanges_def parseRange_def sumRangesSize_def)

text \<open>
  C6, as stated: every request to the content endpoint whose key holds the bytes \<open>B\<close>
  is answered 200 with the body \<open>B\<close>, and 404 when the key is absent.  The file server
  of \<open>net/http\<close> redirects every path that ends in \<open>/index.html\<close>: a key
  \<open>acme/vpc/aws/1.0.0/index.html\<close> that holds bytes is answered 301 without a body, and
  so is an absent \<open>x/index.html\<close>.  It also redirects the path of a file that ends in a
  slash, sends no body for HEAD, answers a \<open>Range\<close> request with 206 and the bytes of
  the range, and a failed \<open>If-None-Match\<close> with 304.
\<close>

theorem index_html_redirected_counterexample:
  "Open (s3fsys (config [] pagesFS)) ''acme/vpc/aws/1.0.0/index.html'' = Inr (File ''page bytes'')
   \<and> status (ServeHTTP (config [] pagesFS)
        (NewRequest ''GET'' ''/download/acme/vpc/aws/1.0.0/index.html'')) = Some 301
   \<and> body (ServeHTTP (config [] pagesFS)
        (NewRequest ''GET'' ''/download/acme/vpc/aws/1.0.0/index.html'')) = []
   \<and> status (ServeHTTP (config [] emptyFS) (NewRequest ''GET'' ''/download/x/index.html''))
       = Some 301
   \<and> status (ServeHTTP (config [] pagesFS)
        (NewRequest ''GET'' ''/download/acme/vpc/aws/1.0.0/vpc.tgz/'')) = Some 301
   \<and> body (ServeHTTP (config [] pagesFS)
        (NewRequest ''HEAD'' ''/download/acme/vpc/aws/1.0.0/vpc.tgz'')) = []
   \<and> status (ServeHTTP (config [] pagesFS)
        ((NewRequest ''GET'' ''/download/acme/vpc/aws/1.0.0/vpc.tgz'')
           \<lparr>Range := Some (\<lambda>sz. Ranges [(0, 7)])\<rparr>)) = Some 206
   \<and> body (ServeHTTP (config [] pagesFS)
        ((NewRequest ''GET'' ''/download/acme/vpc/aws/1.0.0/vpc.tgz'')
           \<lparr>Range := Some (\<lambda>sz. Ranges [(0, 7)])\<rparr>)) = [Bytes ''archive'']
   \<and> status (ServeHTTP (config [] pagesFS)
        ((NewRequest ''GET'' ''/download/acme/vpc/aws/1.0.0/vpc.tgz'')
           \<lparr>IfNoneMatch := condFalse\<rparr>)) = Some 304"
  by code_simp

text \<open>
  C6, amended: take a GET or HEAD request for \<open>/download/rest\<close> whose path does not end
  in \<open>/index.html\<close>; its key is the name under which the file server asks the storage,
  the cleaned \<open>rest\<close>.  When the key holds the bytes \<open>B\<close>, the path does not end in a
  slash, the precondition check of \<open>net/http\<close> lets the request proceed and no byte
  range is selected (as for every request without conditional and \<open>Range\<close> headers),
  the response has status 200, \<open>Content-Type: application/x-gzip\<close>,
  \<open>Content-Encoding: application/octet-stream\<close> and the body \<open>B\<close>, whatever \<open>B\<close> is (no
  body for HEAD).  When the key does not exist, the status is 404.
\<close>

theorem module_content_served:
  assumes m: "Method r = ''GET'' \<or> Method r = ''HEAD''"
    and p: "URL_Path r = ''/download/'' @ rest"
    and ni: "\<not> HasSuffix (requestPath rest) ''/index.html''"
  shows "(Open (s3fsys g) (storageKey rest) = Inr (File B)
            \<and> \<not> endsInSlash (requestPath rest)
            \<and> preconditions r (ModTime (s3fsys g) (storageKey rest)) = Proceed ra
            \<and> selectRanges ra (length B) = Ranges []
          \<longrightarrow> status (ServeHTTP g r) = Some 200
            \<and> body (ServeHTTP g r) = (if Method r = ''HEAD'' then [] else [Bytes B])
            \<and> sent (ServeHTTP g r) ''Content-Type'' = Some ''application/x-gzip''
            \<and> sent (ServeHTTP g r) ''Content-Encoding'' = Some ''application/octet-stream'')
       \<and> (\<forall>e. Open (s3fsys g) (storageKey rest) = Inl e \<and> err_is e = ErrNotExist
          \<longrightarrow> status (ServeHTTP g r) = Some 404)"
proof -
  let ?r' = "r\<lparr>URLParams := [(''*'', rest)]\<rparr>"
  let ?r'' = "?r'\<lparr>URL_Path := requestPath rest\<rparr>"
  let ?w = "Header_Set ''Content-Type'' ''application/x-gzip''
              (Header_Set ''Content-Encoding'' ''application/octet-stream'' (newResponseWriter r))"
  let ?key = "storageKey rest"
  have p': "URL_Path ?r' = ''/download/'' @ rest" using p by simp
  have up: "URL_Path ?r'' = requestPath rest" by simp
  have me: "Method ?r'' = Method r" by simp
  have s: "ServeHTTP g r
             = finishRequest (serveFile ?w ?r'' (s3fsys g) (Clean (requestPath rest)) True)"
    unfolding ServeHTTP_handler [OF dispatch_download [OF m p]] callHandler.simps
      httpGetModule_serveFile [OF p'] ..
  have key: "ioFS_name (Clean (requestPath rest)) = ?key" by (simp add: storageKey_def)
  have a: "status (ServeHTTP g r) = Some 200
      \<and> body (ServeHTTP g r) = (if Method r = ''HEAD'' then [] else [Bytes B])
      \<and> sent (ServeHTTP g r) ''Content-Type'' = Some ''application/x-gzip''
      \<and> sent (ServeHTTP g r) ''Content-Encoding'' = Some ''application/octet-stream''"
    if o: "Open (s3fsys g) ?key = Inr (File B)" and es: "\<not> endsInSlash (requestPath rest)"
      and pc: "preconditions r (ModTime (s3fsys g) ?key) = Proceed ra"
      and sr: "selectRanges ra (length B) = Ranges []"
  proof -
    have io: "ioFS_Open (s3fsys g) (Clean (requestPath rest)) = Inr (File B)"
      using ioFS_Open_file [of "s3fsys g" "Clean (requestPath rest)"] o key by simp
    have sf: "serveFile ?w ?r'' (s3fsys g) (Clean (requestPath rest)) True
                = serveContent ?w ?r'' (ModTime (s3fsys g) ?key) B"
      using ni es by (simp add: serveFile_def io key)
    have pc': "preconditions ?r'' (ModTime (s3fsys g) ?key) = Proceed ra"
      using pc by (simp add: preconditions_path)
    have sc: "serveContent ?w ?r'' (ModTime (s3fsys g) ?key) B
                = sendContent ?w ?r'' 200 (Some (length B)) (Bytes B)"
      by (simp add: serveContent_def pc' sr)
    show ?thesis
      unfolding s sf sc
      by (simp add: sendContent_def finishRequest_def Write_def WriteHeader_def Header_Set_def
          Header_Get_def newResponseWriter_def bodyAllowedForStatus_def Let_def)
  qed
  have b: "status (ServeHTTP g r) = Some 404"
    if o: "Open (s3fsys g) ?key = Inl e" and ne: "err_is e = ErrNotExist" for e
  proof -
    have io: "ioFS_Open (s3fsys g) (Clean (requestPath rest)) = Inl e"
      using ioFS_Open_notExist [of "s3fsys g" "Clean (requestPath rest)" e] o ne key by simp
    have sf: "serveFile ?w ?r'' (s3fsys g) (Clean (requestPath rest)) True
                = http_Error ?w ''404 page not found'' 404"
      using ni ne by (simp add: serveFile_def io toHTTPError_def)
    show ?thesis
      unfolding s sf
      by (simp add: http_Error_def finishRequest_def Write_def WriteHeader_def Header_Set_def
          newResponseWriter_def bodyAllowedForStatus_def Let_def)
  qed
  show ?thesis using a b by blast
qed

theorem module_content_served_witness:
  "Open (s3fsys (config [] rootFS)) (storageKey ''acme/vpc/aws/1.0.0/vpc.tgz'')
     = Inr (File ''archive bytes'')
   \<and> storageKey ''acme/vpc/aws/1.0.0/vpc.tgz'' = ''acme/vpc/aws/1.0.0/vpc.tgz''
   \<and> status (ServeHTTP (config [] rootFS) (NewRequest ''GET'' ''/download/acme/vpc/aws/1.0.0/vpc.tgz''))
       = Some 200
   \<and> body (ServeHTTP (config [] rootFS) (NewRequest ''GET'' ''/download/acme/vpc/aws/1.0.0/vpc.tgz''))
       = [Bytes ''archive bytes'']
   \<and> err_is (notExist ''open'' ''acme/vpc/aws/1.0.0/vpc.tgz'') = ErrNotExist
   \<and> status (ServeHTTP (config [] emptyFS) (NewRequest ''GET'' ''/download/acme/vpc/aws/1.0.0/vpc.tgz''))
       = Some 404"
proof -
  let ?rest = "''acme/vpc/aws/1.0.0/vpc.tgz''"
  let ?r = "NewRequest ''GET'' ''/download/acme/vpc/aws/1.0.0/vpc.tgz''"
  have m: "Method ?r = ''GET'' \<or> Method ?r = ''HEAD''" by (simp add: NewRequest_def)
  have p: "URL_Path ?r = ''/download/'' @ ?rest" by (simp add: NewRequest_def)
  have pk: "plainPath ?rest" by code_simp
  have k: "storageKey ?rest = ?rest" by (rule storageKey_plain(2) [OF pk])
  have ni: "\<not> HasSuffix (requestPath ?rest) ''/index.html''" by code_simp
  have es: "\<not> endsInSlash (requestPath ?rest)" by code_simp
  have o1: "Open (s3fsys (config [] rootFS)) (storageKey ?rest) = Inr (File ''archive bytes'')"
    unfolding k by (simp add: config_def rootFS_def)
  have o2: "Open (s3fsys (config [] emptyFS)) (storageKey ?rest) = Inl (notExist ''open'' ?rest)
            \<and> err_is (notExist ''open'' ?rest) = ErrNotExist"
    unfolding k by (simp add: config_def emptyFS_def notExist_def)
  have pc: "preconditions ?r (ModTime (s3fsys (config [] rootFS)) (storageKey ?rest)) = Proceed None"
    by (rule preconditions_NewRequest(1))
  have sr: "selectRanges None (length ''archive bytes'') = Ranges []"
    by (rule preconditions_NewRequest(2))
  show ?thesis
    using module_content_served [OF m p ni, of "config [] rootFS" "''archive bytes''" None]
      module_content_served [OF m p ni, of "config [] emptyFS" "''archive bytes''" None]
      k es o1 o2 pc sr m
    by (simp add: NewRequest_def)
qed

text \<open>
  Without a prefix the redirect names the artifact: for plain fields, the redirect
  value is \<open>/download/\<close> followed by the artifact's storage path.
\<close>

lemma plainElem_tgz: "plainElem n \<Longrightarrow> plainElem (n @ ''.tgz'')"
  by (cases n) (auto simp: plainElem_def)

lemma redirect_names_artifact_without_prefix:
  assumes "plainElem (Namespace m)" and "plainElem (Name m)" and "plainElem (Provider m)"
    and "plainElem (Version m)"
  shows "tfGetHeader m = ''/download/'' @ spec_artifactPath [] m"
    and "TrimPrefix (tfGetHeader m) ''/download/'' = spec_artifactPath [] m"
proof -
  let ?es = "[Namespace m, Name m, Provider m, Version m, Name m @ ''.tgz'']"
  have pe: "list_all plainElem ?es" using assms plainElem_tgz by simp
  have pd: "plainElem ''download''" by (simp add: plainElem_def)
  have ne: "Namespace m \<noteq> []" using assms(1) by (simp add: plainElem_def)
  have a: "spec_artifactPath [] m = strings_Join ?es ''/''"
    using Clean_plain [of ?es] pe ne by (simp add: spec_artifactPath_def Join_def split: list.splits)
  have "Clean (CHR ''/'' # strings_Join (''download'' # ?es) ''/'')
          = CHR ''/'' # strings_Join (''download'' # ?es) ''/''"
    using Clean_rooted_plain [of "''download'' # ?es"] pe pd by simp
  then have b: "tfGetHeader m = ''/download/'' @ strings_Join ?es ''/''"
    by (simp add: tfGetHeader_def Join_def)
  show "tfGetHeader m = ''/download/'' @ spec_artifactPath [] m" using a b by simp
  then show "TrimPrefix (tfGetHeader m) ''/download/'' = spec_artifactPath [] m"
    by (simp add: TrimPrefix_def HasPrefix_def)
qed

text \<open>
  C1 says that the redirect value, stripped of \<open>/download/\<close>, is the storage path of
  the artifact, prefix included, for every prefix.  The program with the prefix
  \<open>modules\<close> and the module stored under it as the README prescribes: the versions
  endpoint joins the prefix and lists the three versions; the redirect for version 1.0.0
  is \<open>/download/acme/vpc/aws/1.0.0/vpc.tgz\<close>, built without the prefix; stripped, it is
  \<open>acme/vpc/aws/1.0.0/vpc.tgz\<close>, not the storage path
  \<open>modules/acme/vpc/aws/1.0.0/vpc.tgz\<close> where the archive is; following the redirect
  gives 404.
\<close>

theorem download_ignores_prefix:
  "body (ServeHTTP (config ''modules'' prefixedFS)
          (NewRequest ''GET'' ''/terraform/modules/v1/acme/vpc/aws/versions''))
     = [JsonDoc (JObject [(''modules'', JArray [JObject [(''versions'',
            JArray [JObject [(''version'', JString ''1.0.0'')],
                    JObject [(''version'', JString ''1.1.0'')],
                    JObject [(''version'', JString ''2.0.0'')]])]])])]
   \<and> sent (ServeHTTP (config ''modules'' prefixedFS)
          (NewRequest ''GET'' ''/terraform/modules/v1/acme/vpc/aws/1.0.0/download'')) ''X-Terraform-Get''
     = Some ''/download/acme/vpc/aws/1.0.0/vpc.tgz''
   \<and> TrimPrefix ''/download/acme/vpc/aws/1.0.0/vpc.tgz'' ''/download/'' = ''acme/vpc/aws/1.0.0/vpc.tgz''
   \<and> spec_artifactPath ''modules''
        \<lparr>Namespace = ''acme'', Name = ''vpc'', Provider = ''aws'', Version = ''1.0.0''\<rparr>
     = ''modules/acme/vpc/aws/1.0.0/vpc.tgz''
   \<and> Open prefixedFS ''modules/acme/vpc/aws/1.0.0/vpc.tgz'' = Inr (File ''archive bytes'')
   \<and> status (ServeHTTP (config ''modules'' prefixedFS)
          (NewRequest ''GET'' ''/download/acme/vpc/aws/1.0.0/vpc.tgz'')) = Some 404"
  by code_simp

end
